theory Spec2Isabelle
  imports Complex_Main "HOL-Library.AList"
begin

section \<open>ASPAS: the line store and the plate scanner of \<^verbatim>\<open>ASPAS.py\<close>\<close>

text \<open>
  Positions, intensities and calibration scalars are Python floats in the source.  They are
  modelled as \<^typ>\<open>real\<close>: comparisons and arithmetic are exact, and NaN and the
  infinities do not exist.  The tolerance literal \<^verbatim>\<open>0.1\<close> is the real number one tenth.
\<close>

subsection \<open>Exceptions\<close>

datatype error = OSError | IndexError | ValueError | KeyError | ZeroDivisionError

subsection \<open>\<^verbatim>\<open>collections.defaultdict\<close>\<close>

text \<open>
  A Python dictionary keeps its keys in insertion order, so a \<^verbatim>\<open>defaultdict\<close> is an
  association list: assigning to a present key replaces its value in place, assigning to
  an absent key appends.  Reading an absent key with \<^verbatim>\<open>d[k]\<close> calls the default factory,
  stores the result under \<^verbatim>\<open>k\<close> and returns it, so a read returns the dictionary too.
  \<^verbatim>\<open>del d[k]\<close> on an absent key raises \<^verbatim>\<open>KeyError\<close> (the factory is not consulted).
\<close>

type_synonym ('k, 'v) defaultdict = "('k \<times> 'v) list"

definition dd_getitem :: "'v \<Rightarrow> ('k, 'v) defaultdict \<Rightarrow> 'k \<Rightarrow> 'v \<times> ('k, 'v) defaultdict" where
  "dd_getitem dflt d k =
     (case map_of d k of
        Some v \<Rightarrow> (v, d)
      | None \<Rightarrow> (dflt, d @ [(k, dflt)]))"

definition dd_setitem :: "('k, 'v) defaultdict \<Rightarrow> 'k \<Rightarrow> 'v \<Rightarrow> ('k, 'v) defaultdict" where
  "dd_setitem d k v = AList.update k v d"

definition dd_delitem :: "('k, 'v) defaultdict \<Rightarrow> 'k \<Rightarrow> error + ('k, 'v) defaultdict" where
  "dd_delitem d k =
     (case map_of d k of
        None \<Rightarrow> Inl KeyError
      | Some _ \<Rightarrow> Inr (AList.delete k d))"

definition dd_keys :: "('k, 'v) defaultdict \<Rightarrow> 'k list" where
  "dd_keys d = map fst d"

subsection \<open>class \<^verbatim>\<open>Data\<close>\<close>

record Data =
  plate_resolution :: real
  plate_offset :: real
  emission_lines :: "(real, real) defaultdict"
  comments :: "(real, string) defaultdict"

text \<open>\<^verbatim>\<open>Data.__init__\<close>: the line factory returns 0, the comment factory the empty string.\<close>

definition Data_init :: Data where
  "Data_init =
     \<lparr>plate_resolution = 2400 / 25.4, plate_offset = 0, emission_lines = [], comments = []\<rparr>"

definition Data_add_line :: "real \<Rightarrow> real \<Rightarrow> Data \<Rightarrow> Data" where
  "Data_add_line position intens d =
     d\<lparr>emission_lines := dd_setitem (emission_lines d) position intens\<rparr>"

definition Data_add_comment :: "real \<Rightarrow> string \<Rightarrow> Data \<Rightarrow> Data" where
  "Data_add_comment position comment d =
     d\<lparr>comments := dd_setitem (comments d) position comment\<rparr>"

text \<open>
  \<^verbatim>\<open>Data.remove_line\<close>: the \<^verbatim>\<open>del\<close> of the line comes first and may raise; the test
  \<^verbatim>\<open>self.comments[position] != ""\<close> is a read of the comment dictionary, which inserts the
  key when it is absent.
\<close>

definition remove_line :: "real \<Rightarrow> Data \<Rightarrow> error + Data" where
  "remove_line position d =
     (case dd_delitem (emission_lines d) position of
        Inl e \<Rightarrow> Inl e
      | Inr el \<Rightarrow>
          (case dd_getitem [] (comments d) position of
             (c, cm) \<Rightarrow>
               if c \<noteq> [] then
                 (case dd_delitem cm position of
                    Inl e \<Rightarrow> Inl e
                  | Inr cm' \<Rightarrow> Inr (d\<lparr>emission_lines := el, comments := cm'\<rparr>))
               else Inr (d\<lparr>emission_lines := el, comments := cm\<rparr>)))"

definition get_positions :: "Data \<Rightarrow> real list" where
  "get_positions d = dd_keys (emission_lines d)"

subsection \<open>class \<^verbatim>\<open>Comparator\<close>: the operations on the working data\<close>

text \<open>
  Of the window only the attributes the line operations read or write are kept: the data,
  the scan position \<^verbatim>\<open>M\<close>, the width of the loaded plate, the interpolated intensity, the
  text of the comment entry and the text of the notification label (the timer that clears
  the label two seconds later and the redrawing are left out).
\<close>

record Comparator =
  data :: Data
  M :: real
  plate_width :: nat
  intensity :: "real \<Rightarrow> real"
  comment_entry :: string
  comment_notif :: string

text \<open>
  The loop of \<^verbatim>\<open>Comparator.add_line\<close> assigns \<^verbatim>\<open>alread_in\<close>, not \<^verbatim>\<open>already_in\<close>.  The loop
  state is the pair of both variables; only the first is read after the loop.
\<close>

fun add_line_scan :: "real \<Rightarrow> real list \<Rightarrow> bool \<times> bool \<Rightarrow> bool \<times> bool" where
  "add_line_scan m [] flags = flags"
| "add_line_scan m (pos # ps) (already_in, alread_in) =
     (if \<bar>pos - m\<bar> < 0.1 then add_line_scan m ps (already_in, True)
      else add_line_scan m ps (already_in, alread_in))"

definition Comparator_add_line :: "Comparator \<Rightarrow> Comparator" where
  "Comparator_add_line c =
     (let out_of_bounds = (if \<not> (0 < M c \<and> M c < real (plate_width c)) then True else False);
          already_in = fst (add_line_scan (M c) (get_positions (data c)) (False, False))
      in if \<not> already_in \<and> \<not> out_of_bounds then
           c\<lparr>data := Data_add_line (M c) (intensity c (M c)) (data c),
             comment_notif := ''Line added.''\<rparr>
         else
           (let c1 = (if already_in then c\<lparr>comment_notif := ''Error: Line already added.''\<rparr>
                      else c)
            in if out_of_bounds then c1\<lparr>comment_notif := ''Error: Line out of bounds.''\<rparr>
               else c1))"

fun add_comment_scan :: "real \<Rightarrow> string \<Rightarrow> real list \<Rightarrow> Data \<times> bool \<Rightarrow> Data \<times> bool" where
  "add_comment_scan m txt [] s = s"
| "add_comment_scan m txt (pos # ps) (d, line) =
     (if \<bar>pos - m\<bar> < 0.1 then add_comment_scan m txt ps (Data_add_comment pos txt d, True)
      else add_comment_scan m txt ps (d, line))"

definition Comparator_add_comment :: "Comparator \<Rightarrow> Comparator" where
  "Comparator_add_comment c =
     (case add_comment_scan (M c) (comment_entry c) (get_positions (data c)) (data c, False) of
        (d, line) \<Rightarrow>
          if line then c\<lparr>data := d, comment_notif := ''Comment added.''\<rparr>
          else c\<lparr>data := d,
                 comment_notif := ''Error: Line not found.'' @ [CHR 0x0A] @ ''Comment not added.''\<rparr>)"

text \<open>
  \<^verbatim>\<open>Comparator.delete_line\<close> walks a copy of the key list (\<^verbatim>\<open>get_positions\<close> builds a new
  list), so removing while iterating is safe.  An exception of \<^verbatim>\<open>remove_line\<close> would leave
  the loop with the data as it is at that moment.
\<close>

fun delete_line_scan :: "real \<Rightarrow> real list \<Rightarrow> Data \<times> bool \<Rightarrow> error \<times> Data + Data \<times> bool" where
  "delete_line_scan m [] s = Inr s"
| "delete_line_scan m (pos # ps) (d, line) =
     (if \<bar>pos - m\<bar> < 0.1 then
        (case remove_line pos d of
           Inl e \<Rightarrow> Inl (e, d)
         | Inr d' \<Rightarrow> delete_line_scan m ps (d', True))
      else delete_line_scan m ps (d, line))"

definition delete_line :: "Comparator \<Rightarrow> error \<times> Comparator + Comparator" where
  "delete_line c =
     (case delete_line_scan (M c) (get_positions (data c)) (data c, False) of
        Inl (e, d) \<Rightarrow> Inl (e, c\<lparr>data := d\<rparr>)
      | Inr (d, line) \<Rightarrow>
          if line then Inr (c\<lparr>data := d, comment_notif := ''Line deleted.''\<rparr>)
          else Inr (c\<lparr>data := d, comment_notif := ''Error: No line to delete.''\<rparr>))"

subsection \<open>Line files: the built-ins the reader and the writer call\<close>

text \<open>
  A text file is the list of its lines as \<^verbatim>\<open>readlines()\<close> returns them.  Characters are
  the 256 values of \<^typ>\<open>char\<close>; \<^verbatim>\<open>str.split()\<close> without arguments cuts at runs of the
  characters for which \<^verbatim>\<open>str.isspace\<close> holds and drops empty pieces.
\<close>

definition isspace :: "char \<Rightarrow> bool" where
  "isspace c \<longleftrightarrow>
     c \<in> {CHR 0x09, CHR 0x0A, CHR 0x0B, CHR 0x0C, CHR 0x0D, CHR 0x1C, CHR 0x1D, CHR 0x1E,
          CHR 0x1F, CHR 0x20, CHR 0x85, CHR 0xA0}"

fun split_from :: "string \<Rightarrow> string \<Rightarrow> string list" where
  "split_from tok [] = (if tok = [] then [] else [tok])"
| "split_from tok (c # cs) =
     (if isspace c then (if tok = [] then split_from [] cs else tok # split_from [] cs)
      else split_from (tok @ [c]) cs)"

definition str_split :: "string \<Rightarrow> string list" where
  "str_split s = split_from [] s"

text \<open>The alignment \<^verbatim>\<open>>8\<close> (and the default alignment of a number) pads on the left.\<close>

definition rjust :: "nat \<Rightarrow> string \<Rightarrow> string" where
  "rjust width s = replicate (width - length s) (CHR '' '') @ s"

text \<open>
  \<^verbatim>\<open>round(x, ndigits)\<close> on the exact value: to the nearest multiple of \<open>10\<^sup>-\<^sup>n\<close>, a tie to the
  even one.
\<close>

definition round_half_even :: "real \<Rightarrow> int" where
  "round_half_even x =
     (let f = \<lfloor>x\<rfloor>; r = x - of_int f
      in if r < 1 / 2 then f else if 1 / 2 < r then f + 1 else if even f then f else f + 1)"

definition py_round :: "real \<Rightarrow> nat \<Rightarrow> real" where
  "py_round x ndigits = of_int (round_half_even (x * 10 ^ ndigits)) / 10 ^ ndigits"

text \<open>
  Three built-ins are parameters of the reader and the writer: \<^verbatim>\<open>float(s)\<close> as
  \<open>float :: string \<Rightarrow> real option\<close> (\<open>None\<close> is \<^verbatim>\<open>ValueError\<close>), \<^verbatim>\<open>str(x)\<close> of a float as
  \<open>str :: real \<Rightarrow> string\<close>, and the fixed-point presentation \<^verbatim>\<open>.nf\<close> as
  \<open>format_f :: nat \<Rightarrow> real \<Rightarrow> string\<close>.
\<close>

subsection \<open>\<^verbatim>\<open>Data.save_lines\<close>\<close>

text \<open>
  The writer reads \<^verbatim>\<open>self.emission_lines[pos]\<close> and \<^verbatim>\<open>self.comments[pos]\<close>, and a read of a
  \<^verbatim>\<open>defaultdict\<close> may insert, so it returns the data too.  The quotient
  \<^verbatim>\<open>pos/self.plate_resolution\<close> is evaluated first in a row and raises
  \<^verbatim>\<open>ZeroDivisionError\<close> for a zero resolution.  The result is the exception if any, the data
  and the lines written so far.  Opening the file for writing is taken to succeed.
  \<open>format_row\<close> is the text of a row: the three adjacent f-strings of the \<^verbatim>\<open>write\<close> call.
\<close>

definition format_row :: "(nat \<Rightarrow> real \<Rightarrow> string) \<Rightarrow> real \<Rightarrow> real \<Rightarrow> string \<Rightarrow> string" where
  "format_row format_f x i c =
     '' '' @ rjust 8 (format_f 4 x) @ '' '' @ '' '' @ rjust 10 (format_f 3 i) @ ''  '' @ '' '' @ c
       @ [CHR 0x0A]"

fun save_rows ::
  "(nat \<Rightarrow> real \<Rightarrow> string) \<Rightarrow> real list \<Rightarrow> Data \<Rightarrow> string list \<Rightarrow>
   error option \<times> Data \<times> string list" where
  "save_rows format_f [] d out = (None, d, out)"
| "save_rows format_f (pos # ps) d out =
     (if plate_resolution d = 0 then (Some ZeroDivisionError, d, out)
      else
        (case dd_getitem 0 (emission_lines d) pos of
           (i, el) \<Rightarrow>
             (case dd_getitem [] (comments d) pos of
                (c, cm) \<Rightarrow>
                  save_rows format_f ps (d\<lparr>emission_lines := el, comments := cm\<rparr>)
                    (out @ [format_row format_f (pos / plate_resolution d + plate_offset d) i c]))))"

definition save_lines ::
  "(real \<Rightarrow> string) \<Rightarrow> (nat \<Rightarrow> real \<Rightarrow> string) \<Rightarrow> Data \<Rightarrow> error option \<times> Data \<times> string list" where
  "save_lines str format_f d =
     save_rows format_f (sort (get_positions d)) d
       [''Plate Resolution: '' @ str (py_round (plate_resolution d) 3) @ '' px/mm'' @ [CHR 0x0A],
        ''Plate Offset: '' @ str (plate_offset d) @ '' mm'' @ [CHR 0x0A],
        '' Position | Intensity | Comments'' @ [CHR 0x0A]]"

subsection \<open>\<^verbatim>\<open>Data.load_lines\<close>\<close>

text \<open>
  The argument \<open>name\<close> is what opening and reading the path yields: \<open>None\<close> when that
  fails.  The result is the exception if any and the data as the call leaves them.
  \<open>header_value float lines_file n\<close> is \<^verbatim>\<open>float(lines_file[n].split()[2])\<close>.
\<close>

definition header_value :: "(string \<Rightarrow> real option) \<Rightarrow> string list \<Rightarrow> nat \<Rightarrow> error + real" where
  "header_value float lines_file n =
     (if length lines_file \<le> n then Inl IndexError
      else
        (let toks = str_split (lines_file ! n)
         in if length toks \<le> 2 then Inl IndexError
            else (case float (toks ! 2) of None \<Rightarrow> Inl ValueError | Some x \<Rightarrow> Inr x)))"

text \<open>
  The body of the row loop up to the two stores: the pixel position \<^verbatim>\<open>p\<close>, the intensity
  \<^verbatim>\<open>i\<close> and the comment \<^verbatim>\<open>c\<close> of a row, or the exception.  The bare \<^verbatim>\<open>except\<close> around
  \<^verbatim>\<open>line.split()[2]\<close> turns a missing third field into the empty comment.
\<close>

definition parse_row ::
  "(string \<Rightarrow> real option) \<Rightarrow> Data \<Rightarrow> string \<Rightarrow> error + real \<times> real \<times> string" where
  "parse_row float d line =
     (case str_split line of
        [] \<Rightarrow> Inl IndexError
      | t0 # ts \<Rightarrow>
          (case float t0 of
             None \<Rightarrow> Inl ValueError
           | Some x \<Rightarrow>
               (case ts of
                  [] \<Rightarrow> Inl IndexError
                | t1 # ts' \<Rightarrow>
                    (case float t1 of
                       None \<Rightarrow> Inl ValueError
                     | Some i \<Rightarrow>
                         Inr ((x - plate_offset d) * plate_resolution d, i,
                              (case ts' of [] \<Rightarrow> [] | t2 # _ \<Rightarrow> t2))))))"

fun load_rows :: "(string \<Rightarrow> real option) \<Rightarrow> string list \<Rightarrow> Data \<Rightarrow> error option \<times> Data" where
  "load_rows float [] d = (None, d)"
| "load_rows float (line # rest) d =
     (case parse_row float d line of
        Inl e \<Rightarrow> (Some e, d)
      | Inr (p, i, c) \<Rightarrow>
          load_rows float rest
            (d\<lparr>emission_lines := dd_setitem (emission_lines d) p i,
               comments := dd_setitem (comments d) p c\<rparr>))"

definition load_lines ::
  "(string \<Rightarrow> real option) \<Rightarrow> string list option \<Rightarrow> Data \<Rightarrow> error option \<times> Data" where
  "load_lines float name d =
     (let d0 = d\<lparr>emission_lines := [], comments := []\<rparr>
      in case name of
           None \<Rightarrow> (Some OSError, d0)
         | Some lines_file \<Rightarrow>
             (case header_value float lines_file 0 of
                Inl e \<Rightarrow> (Some e, d0)
              | Inr r \<Rightarrow>
                  (let d1 = d0\<lparr>plate_resolution := r\<rparr>
                   in case header_value float lines_file 1 of
                        Inl e \<Rightarrow> (Some e, d1)
                      | Inr off \<Rightarrow>
                          load_rows float (drop 3 lines_file) (d1\<lparr>plate_offset := off\<rparr>))))"

subsection \<open>\<^verbatim>\<open>Comparator.scan_plate\<close>\<close>

text \<open>
  \<^verbatim>\<open>np.array(Image.open(plate_file))\<close> has shape \<open>(H, W)\<close> for a single-channel image and
  \<open>(H, W, C)\<close> for an image with \<open>C\<close> channels; pixel values are unsigned integers.
  \<^verbatim>\<open>np.transpose\<close> without axes reverses the axes, and the \<^verbatim>\<open>for\<close> loop walks the first
  axis of the result: the \<open>W\<close> columns (each of \<open>H\<close> pixels) of a single-channel image, but
  the \<open>C\<close> channel planes (each of \<open>W \<times> H\<close> pixels) of a multi-channel one.
  \<^verbatim>\<open>np.average\<close> is the mean of all elements of its argument, and not a number for an
  empty one (\<open>None\<close> here).
\<close>

datatype image =
  Gray (img_width: nat) (img_height: nat) "nat list list"
| Multi (img_width: nat) (img_height: nat) nat "nat list list list"

fun wf_image :: "image \<Rightarrow> bool" where
  "wf_image (Gray w h rows) \<longleftrightarrow> length rows = h \<and> (\<forall>row\<in>set rows. length row = w)"
| "wf_image (Multi w h c rows) \<longleftrightarrow>
     length rows = h \<and> (\<forall>row\<in>set rows. length row = w \<and> (\<forall>px\<in>set row. length px = c))"

fun plate_array :: "image \<Rightarrow> nat list list" where
  "plate_array (Gray w h rows) = map (\<lambda>j. map (\<lambda>i. rows ! i ! j) [0..<h]) [0..<w]"
| "plate_array (Multi w h c rows) =
     map (\<lambda>k. concat (map (\<lambda>j. map (\<lambda>i. rows ! i ! j ! k) [0..<h]) [0..<w])) [0..<c]"

definition np_average :: "nat list \<Rightarrow> real option" where
  "np_average xs = (if xs = [] then None else Some (real (sum_list xs) / real (length xs)))"

text \<open>The local list \<^verbatim>\<open>intensity\<close> after the loop.\<close>

definition intensity_list :: "image \<Rightarrow> real option list" where
  "intensity_list img =
     map (\<lambda>column. map_option (\<lambda>a. 256 - a) (np_average column)) (plate_array img)"

text \<open>
  \<^verbatim>\<open>scipy.interpolate.interp1d\<close> is a parameter: it either raises or returns the
  interpolant.  \<open>plate_file\<close> is what \<^verbatim>\<open>Image.open\<close> yields, \<open>None\<close> when it raises.
\<close>

definition scan_plate ::
  "(nat list \<Rightarrow> real option list \<Rightarrow> error + (real \<Rightarrow> real)) \<Rightarrow> image option \<Rightarrow> Comparator \<Rightarrow>
   error + Comparator" where
  "scan_plate interp1d plate_file c =
     (case plate_file of
        None \<Rightarrow> Inl OSError
      | Some img \<Rightarrow>
          (case interp1d [0..<plate_width c] (intensity_list img) of
             Inl e \<Rightarrow> Inl e
           | Inr f \<Rightarrow> Inr (c\<lparr>intensity := f\<rparr>)))"

subsection \<open>Example states\<close>

definition commented_data :: Data where
  "commented_data =
     Data_init\<lparr>emission_lines := [(50, 128), (10, 7), (50.05, 127)],
                comments := [(50, ''Fe''), (10, ''Ne'')]\<rparr>"

definition dup_state :: Comparator where
  "dup_state =
     \<lparr>data = Data_init\<lparr>emission_lines := [(50, 128)]\<rparr>, M = 50.05, plate_width = 100,
      intensity = (\<lambda>x. 128), comment_entry = [], comment_notif = []\<rparr>"

definition near_state :: Comparator where
  "near_state =
     \<lparr>data = commented_data, M = 50.02, plate_width = 100, intensity = (\<lambda>x. 128),
      comment_entry = ''Cu'', comment_notif = []\<rparr>"

definition far_state :: Comparator where
  "far_state =
     \<lparr>data = commented_data, M = 30, plate_width = 100, intensity = (\<lambda>x. 128),
      comment_entry = ''Cu'', comment_notif = []\<rparr>"

subsection \<open>A decimal instance of the built-ins\<close>

text \<open>
  For closed examples the three built-ins are instantiated on plain decimal notation:
  \<open>format_fixed\<close> prints the value rounded half-even to the given number of decimals,
  \<open>str_fixed\<close> prints at most six decimals without trailing zeros (keeping one), and
  \<open>float_decimal\<close> reads an optional sign, digits and an optional fraction, and rejects
  everything else.
\<close>

fun str_nat :: "nat \<Rightarrow> string" where
  "str_nat n =
     (if n < 10 then [''0123456789'' ! n]
      else str_nat (n div 10) @ [''0123456789'' ! (n mod 10)])"

declare str_nat.simps [simp del]

definition format_fixed :: "nat \<Rightarrow> real \<Rightarrow> string" where
  "format_fixed prec x =
     (let k = nat \<bar>round_half_even (x * 10 ^ prec)\<bar>;
          frac = str_nat (k mod 10 ^ prec)
      in (if x < 0 then ''-'' else []) @ str_nat (k div 10 ^ prec) @
         (if prec = 0 then [] else ''.'' @ replicate (prec - length frac) (CHR ''0'') @ frac))"

definition str_fixed :: "real \<Rightarrow> string" where
  "str_fixed x =
     (let s = rev (dropWhile (\<lambda>c. c = CHR ''0'') (rev (format_fixed 6 x)))
      in if s \<noteq> [] \<and> last s = CHR ''.'' then s @ ''0'' else s)"

definition digit_value :: "char \<Rightarrow> nat option" where
  "digit_value c = map_of (zip ''0123456789'' [0, 1, 2, 3, 4, 5, 6, 7, 8, 9]) c"

fun nat_of_digits :: "string \<Rightarrow> nat \<Rightarrow> nat option" where
  "nat_of_digits [] acc = Some acc"
| "nat_of_digits (c # cs) acc =
     (case digit_value c of None \<Rightarrow> None | Some v \<Rightarrow> nat_of_digits cs (10 * acc + v))"

definition float_decimal :: "string \<Rightarrow> real option" where
  "float_decimal s =
     (let neg = (s \<noteq> [] \<and> hd s = CHR ''-'');
          body = (if s \<noteq> [] \<and> (hd s = CHR ''-'' \<or> hd s = CHR ''+'') then tl s else s);
          ip = takeWhile (\<lambda>c. c \<noteq> CHR ''.'') body;
          fp = drop 1 (dropWhile (\<lambda>c. c \<noteq> CHR ''.'') body)
      in if ip = [] \<and> fp = [] then None
         else
           (case nat_of_digits ip 0 of
              None \<Rightarrow> None
            | Some a \<Rightarrow>
                (case nat_of_digits fp 0 of
                   None \<Rightarrow> None
                 | Some b \<Rightarrow>
                     Some ((if neg then - 1 else 1) * (real a + real b / 10 ^ length fp)))))"

subsection \<open>Example files\<close>

text \<open>
  A plate with resolution 100 and offset 0 and two lines, at the pixel positions 20.25
  (intensity 3.5, no comment) and 50.5 (intensity 128, comment \<^verbatim>\<open>Fe\<close>), and the file
  \<^verbatim>\<open>save_lines\<close> writes for it.
\<close>

definition plate_data :: Data where
  "plate_data =
     \<lparr>plate_resolution = 100, plate_offset = 0,
      emission_lines = [(50.5, 128), (20.25, 3.5)], comments = [(50.5, ''Fe'')]\<rparr>"

definition plate_file :: "string list" where
  "plate_file =
     [''Plate Resolution: 100.0 px/mm'' @ [CHR 0x0A],
      ''Plate Offset: 0.0 mm'' @ [CHR 0x0A],
      '' Position | Intensity | Comments'' @ [CHR 0x0A],
      ''   0.2025       3.500   '' @ [CHR 0x0A],
      ''   0.5050     128.000   Fe'' @ [CHR 0x0A]]"

definition loaded_plate :: Data where
  "loaded_plate =
     \<lparr>plate_resolution = 100, plate_offset = 0,
      emission_lines = [(20.25, 3.5), (50.5, 128)], comments = [(20.25, []), (50.5, ''Fe'')]\<rparr>"

text \<open>The same file with a second row that lacks the intensity, and one with a bad offset.\<close>

definition truncated_file :: "string list" where
  "truncated_file =
     [''Plate Resolution: 100.0 px/mm'' @ [CHR 0x0A],
      ''Plate Offset: 0.0 mm'' @ [CHR 0x0A],
      '' Position | Intensity | Comments'' @ [CHR 0x0A],
      ''   0.2025       3.500   '' @ [CHR 0x0A],
      ''   0.5050'' @ [CHR 0x0A]]"

definition bad_offset_file :: "string list" where
  "bad_offset_file =
     [''Plate Resolution: 100.0 px/mm'' @ [CHR 0x0A],
      ''Plate Offset: none mm'' @ [CHR 0x0A]]"

subsection \<open>Example images\<close>

text \<open>
  A grey image two pixels wide and two high, a three-channel image two pixels wide and one
  high (a black and a white pixel), images of width 0, and a window without a plate.
\<close>

definition gray_image :: image where
  "gray_image = Gray 2 2 [[0, 100], [50, 200]]"

definition rgb_image :: image where
  "rgb_image = Multi 2 1 3 [[[0, 0, 0], [255, 255, 255]]]"



definition blank_window :: Comparator where
  "blank_window =
     \<lparr>data = Data_init, M = 0, plate_width = 0, intensity = (\<lambda>x. 0), comment_entry = [],
      comment_notif = []\<rparr>"

text \<open>
  An instance of the interpolant constructor for closed examples: it refuses abscissae and
  samples of different lengths and fewer than four points, and otherwise returns the step
  function through the samples.
\<close>

definition interp1d_steps :: "nat list \<Rightarrow> real option list \<Rightarrow> error + (real \<Rightarrow> real)" where
  "interp1d_steps xs ys =
     (if length xs \<noteq> length ys \<or> length xs < 4 then Inl ValueError
      else Inr (\<lambda>x. case ys ! min (nat \<lfloor>x\<rfloor>) (length ys - 1) of None \<Rightarrow> 0 | Some y \<Rightarrow> y))"

subsection \<open>Notions for the round trip\<close>

text \<open>
  \<open>line_intensity\<close> and \<open>line_comment\<close> are what \<^verbatim>\<open>emission_lines[p]\<close> and \<^verbatim>\<open>comments[p]\<close>
  return; \<open>physical\<close> is the position \<^verbatim>\<open>save_lines\<close> writes for a pixel position;
  \<open>reads_as float s x\<close> says that the text \<open>s\<close> is one field (not empty, no white space)
  that \<open>float\<close> reads as \<open>x\<close>.
\<close>

definition line_intensity :: "Data \<Rightarrow> real \<Rightarrow> real" where
  "line_intensity d p = fst (dd_getitem 0 (emission_lines d) p)"

definition line_comment :: "Data \<Rightarrow> real \<Rightarrow> string" where
  "line_comment d p = fst (dd_getitem [] (comments d) p)"

definition physical :: "Data \<Rightarrow> real \<Rightarrow> real" where
  "physical d p = p / plate_resolution d + plate_offset d"

definition reads_as :: "(string \<Rightarrow> real option) \<Rightarrow> string \<Rightarrow> real \<Rightarrow> bool" where
  "reads_as float s x \<longleftrightarrow> s \<noteq> [] \<and> (\<forall>ch\<in>set s. \<not> isspace ch) \<and> float s = Some x"

text \<open>
  Claim C3 in the words of the specification: the state \<open>s'\<close> equals the state \<open>s\<close> up to
  the declared rounding, as calibrations and as sets of (physical position, intensity,
  comment) entries.
\<close>

definition equal_up_to_rounding :: "Data \<Rightarrow> Data \<Rightarrow> bool" where
  "equal_up_to_rounding s s' \<longleftrightarrow>
     plate_resolution s' = py_round (plate_resolution s) 3 \<and>
     plate_offset s' = plate_offset s \<and>
     (\<lambda>p. (physical s' p, line_intensity s' p, line_comment s' p)) ` set (get_positions s') =
     (\<lambda>p. (py_round (physical s p) 4, py_round (line_intensity s p) 3, line_comment s p)) `
       set (get_positions s)"

text \<open>The state a reload of the saved file is shown to produce.\<close>

definition reloaded :: "Data \<Rightarrow> Data" where
  "reloaded s =
     \<lparr>plate_resolution = py_round (plate_resolution s) 3,
      plate_offset = plate_offset s,
      emission_lines =
        map (\<lambda>p. ((py_round (physical s p) 4 - plate_offset s) * py_round (plate_resolution s) 3,
                  py_round (line_intensity s p) 3))
          (sort (get_positions s)),
      comments =
        map (\<lambda>p. ((py_round (physical s p) 4 - plate_offset s) * py_round (plate_resolution s) 3,
                  line_comment s p))
          (sort (get_positions s))\<rparr>"

text \<open>Two lines 0.00001 pixels apart, at resolution 1.\<close>

definition two_close :: Data where
  "two_close =
     \<lparr>plate_resolution = 1, plate_offset = 0, emission_lines = [(1, 5), (1.00001, 7)],
      comments = []\<rparr>"

definition two_close_file :: "string list" where
  "two_close_file =
     [''Plate Resolution: 1.0 px/mm'' @ [CHR 0x0A],
      ''Plate Offset: 0.0 mm'' @ [CHR 0x0A],
      '' Position | Intensity | Comments'' @ [CHR 0x0A],
      ''   1.0000       5.000   '' @ [CHR 0x0A],
      ''   1.0000       7.000   '' @ [CHR 0x0A]]"

definition merged_line :: Data where
  "merged_line =
     \<lparr>plate_resolution = 1, plate_offset = 0, emission_lines = [(1, 7)], comments = [(1, [])]\<rparr>"

subsection \<open>The line file, in the words of the specification\<close>

text \<open>
  The vocabulary of the specification for a line file, written on the tokens of a line
  and on \<open>float\<close> only, to state what \<^verbatim>\<open>load_lines\<close> does with a file:
  \<^item> \<open>header_scalar float l\<close> is the calibration scalar of a header line, its third field
    read as a number, if the line has one;
  \<^item> \<open>two_numeric_fields float l\<close> says that a data row has the two required numeric
    fields;
  \<^item> \<open>row_position\<close> is the pixel position \<open>(physical position - offset) * resolution\<close> of
    a row, \<open>row_intensity\<close> its second field and \<open>row_comment\<close> its third field, the empty
    comment when the row has no third field;
  \<^item> \<open>stored_rows float r off rows\<close> is the state that holds exactly the given rows under
    the calibration \<open>r\<close>, \<open>off\<close>: the rows are entered in file order into two empty
    dictionaries, a later row at the same position replacing the earlier one.
\<close>

definition header_scalar :: "(string \<Rightarrow> real option) \<Rightarrow> string \<Rightarrow> real option" where
  "header_scalar float l = (if 2 < length (str_split l) then float (str_split l ! 2) else None)"

definition two_numeric_fields :: "(string \<Rightarrow> real option) \<Rightarrow> string \<Rightarrow> bool" where
  "two_numeric_fields float l \<longleftrightarrow>
     2 \<le> length (str_split l) \<and> float (str_split l ! 0) \<noteq> None \<and> float (str_split l ! 1) \<noteq> None"

definition row_position :: "(string \<Rightarrow> real option) \<Rightarrow> real \<Rightarrow> real \<Rightarrow> string \<Rightarrow> real" where
  "row_position float r off l = (the (float (str_split l ! 0)) - off) * r"

definition row_intensity :: "(string \<Rightarrow> real option) \<Rightarrow> string \<Rightarrow> real" where
  "row_intensity float l = the (float (str_split l ! 1))"

definition row_comment :: "string \<Rightarrow> string" where
  "row_comment l = (if 2 < length (str_split l) then str_split l ! 2 else [])"

definition stored_rows :: "(string \<Rightarrow> real option) \<Rightarrow> real \<Rightarrow> real \<Rightarrow> string list \<Rightarrow> Data" where
  "stored_rows float r off rows =
     \<lparr>plate_resolution = r, plate_offset = off,
      emission_lines =
        fold (\<lambda>l. AList.update (row_position float r off l) (row_intensity float l)) rows [],
      comments =
        fold (\<lambda>l. AList.update (row_position float r off l) (row_comment l)) rows []\<rparr>"

text \<open>
  A file whose offset is not 0: resolution 100, offset 2.5, a row without comment at the
  physical position 2.7025 and a row with the comment \<^verbatim>\<open>Fe\<close> at 3.0050.
\<close>

definition offset_file :: "string list" where
  "offset_file =
     [''Plate Resolution: 100.0 px/mm'' @ [CHR 0x0A],
      ''Plate Offset: 2.5 mm'' @ [CHR 0x0A],
      '' Position | Intensity | Comments'' @ [CHR 0x0A],
      ''   2.7025       3.500'' @ [CHR 0x0A],
      ''   3.0050     128.000   Fe'' @ [CHR 0x0A]]"

subsection \<open>The interpolant constructor, from the library's documentation\<close>

text \<open>
  \<^verbatim>\<open>scipy.interpolate.interp1d(x, y, kind='cubic', fill_value='extrapolate')\<close> as far as
  the documentation of the library fixes it: the call raises \<^verbatim>\<open>ValueError\<close> when \<open>x\<close> and
  \<open>y\<close> differ in length and when there are fewer than four points (a spline of order 3
  needs four), and otherwise returns the cubic spline through the points.  The spline
  itself is the parameter \<open>spline\<close>.
\<close>

definition interp1d_cubic ::
  "(nat list \<Rightarrow> real option list \<Rightarrow> real \<Rightarrow> real) \<Rightarrow> nat list \<Rightarrow> real option list \<Rightarrow>
   error + (real \<Rightarrow> real)" where
  "interp1d_cubic spline xs ys =
     (if length xs \<noteq> length ys then Inl ValueError
      else if length xs < 4 then Inl ValueError
      else Inr (spline xs ys))"

text \<open>
  For closed examples: the step function through the samples in the place of the spline,
  a constructor that accepts every input, windows for plates two and four pixels wide,
  and a grey image four pixels wide and one high.
\<close>

definition step_spline :: "nat list \<Rightarrow> real option list \<Rightarrow> real \<Rightarrow> real" where
  "step_spline xs ys x = (case ys ! min (nat \<lfloor>x\<rfloor>) (length ys - 1) of None \<Rightarrow> 0 | Some y \<Rightarrow> y)"


definition narrow_window :: Comparator where
  "narrow_window =
     \<lparr>data = Data_init, M = 0, plate_width = 2, intensity = (\<lambda>x. 0), comment_entry = [],
      comment_notif = []\<rparr>"

definition wide_window :: Comparator where
  "wide_window =
     \<lparr>data = Data_init, M = 0, plate_width = 4, intensity = (\<lambda>x. 0), comment_entry = [],
      comment_notif = []\<rparr>"

definition wide_image :: image where
  "wide_image = Gray 4 1 [[0, 100, 200, 56]]"




section \<open>Properties\<close>

subsection \<open>The dictionaries\<close>

lemma remove_line_eq:
  assumes "map_of (emission_lines d) p \<noteq> None"
  shows "remove_line p d = Inr (d\<lparr>emission_lines := AList.delete p (emission_lines d),
      comments := (case map_of (comments d) p of None \<Rightarrow> comments d @ [(p, [])]
                   | Some c \<Rightarrow> if c \<noteq> [] then AList.delete p (comments d) else comments d)\<rparr>)"
  using assms
  by (auto simp: remove_line_def dd_delitem_def dd_getitem_def split: option.splits)

lemma remove_line_comments:
  assumes "remove_line p d = Inr d'"
  shows "map_of (comments d') q =
     (if q = p then
        (if map_of (comments d) p = None \<or> map_of (comments d) p = Some [] then Some [] else None)
      else map_of (comments d) q)"
proof -
  have "map_of (emission_lines d) p \<noteq> None"
    using assms by (auto simp: remove_line_def dd_delitem_def split: option.splits)
  from remove_line_eq[OF this] assms
  have "comments d' = (case map_of (comments d) p of None \<Rightarrow> comments d @ [(p, [])]
                   | Some c \<Rightarrow> if c \<noteq> [] then AList.delete p (comments d) else comments d)"
    by auto
  then show ?thesis
    by (auto simp: map_add_def delete_conv split: option.splits)
qed

text \<open>
  C10.  Reading a missing key of either dictionary returns the default (0, the empty
  string) and inserts the key with it.  Consequently \<^verbatim>\<open>remove_line\<close> on a stored position
  whose comment is empty or absent deletes the line and leaves an empty-string entry for
  the position in the comment dictionary (newly appended when it was absent).
\<close>

theorem missing_key_read_inserts:
  "(map_of (emission_lines s) k = None \<longrightarrow>
      dd_getitem 0 (emission_lines s) k = (0, emission_lines s @ [(k, 0)])) \<and>
   (map_of (comments s) k = None \<longrightarrow>
      dd_getitem [] (comments s) k = ([], comments s @ [(k, [])])) \<and>
   (p \<in> set (get_positions s) \<and>
    (map_of (comments s) p = None \<or> map_of (comments s) p = Some []) \<longrightarrow>
      (\<exists>s'. remove_line p s = Inr s' \<and> p \<notin> set (get_positions s') \<and>
         emission_lines s' = AList.delete p (emission_lines s) \<and>
         map_of (comments s') p = Some [] \<and>
         comments s' =
           (if map_of (comments s) p = None then comments s @ [(p, [])] else comments s)))"
proof (intro conjI impI)
  assume a: "p \<in> set (get_positions s) \<and>
    (map_of (comments s) p = None \<or> map_of (comments s) p = Some [])"
  then have "map_of (emission_lines s) p \<noteq> None"
    by (simp add: get_positions_def dd_keys_def map_of_eq_None_iff)
  from remove_line_eq[OF this]
  obtain s' where s': "remove_line p s = Inr s'"
    "emission_lines s' = AList.delete p (emission_lines s)"
    "comments s' = (case map_of (comments s) p of None \<Rightarrow> comments s @ [(p, [])]
                   | Some c \<Rightarrow> if c \<noteq> [] then AList.delete p (comments s) else comments s)"
    by simp
  have k: "p \<notin> set (get_positions s')"
    by (simp add: get_positions_def dd_keys_def s'(2) delete_notin_dom)
  have c: "comments s' =
      (if map_of (comments s) p = None then comments s @ [(p, [])] else comments s)"
    using a s'(3) by auto
  have m: "map_of (comments s') p = Some []"
    using a c by (auto simp: map_add_def)
  show "\<exists>s'. remove_line p s = Inr s' \<and> p \<notin> set (get_positions s') \<and>
         emission_lines s' = AList.delete p (emission_lines s) \<and>
         map_of (comments s') p = Some [] \<and>
         comments s' =
           (if map_of (comments s) p = None then comments s @ [(p, [])] else comments s)"
    using s'(1,2) k c m by blast
qed (simp_all add: dd_getitem_def)

theorem missing_key_read_inserts_witness:
  "map_of (emission_lines commented_data) 3 = None \<and>
   dd_getitem 0 (emission_lines commented_data) 3 = (0, emission_lines commented_data @ [(3, 0)]) \<and>
   map_of (comments commented_data) 3 = None \<and>
   dd_getitem [] (comments commented_data) 3 = ([], comments commented_data @ [(3, [])]) \<and>
   50.05 \<in> set (get_positions commented_data) \<and>
   map_of (comments commented_data) 50.05 = None \<and>
   (\<exists>s'. remove_line 50.05 commented_data = Inr s' \<and>
      emission_lines s' = [(50, 128), (10, 7)] \<and>
      comments s' = [(50, ''Fe''), (10, ''Ne''), (50.05, [])])"
proof -
  have h: "map_of (emission_lines commented_data) 3 = None"
     "map_of (comments commented_data) 3 = None"
     "50.05 \<in> set (get_positions commented_data)"
     "map_of (comments commented_data) 50.05 = None"
    by (simp_all add: commented_data_def Data_init_def get_positions_def dd_keys_def)
  have e: "AList.delete 50.05 (emission_lines commented_data) = [(50, 128), (10, 7)]"
     "comments commented_data @ [(50.05, [])] = [(50, ''Fe''), (10, ''Ne''), (50.05, [])]"
    by (simp_all add: commented_data_def Data_init_def)
  show ?thesis
    using h e missing_key_read_inserts[of commented_data 3 "50.05"] by auto
qed

subsection \<open>Adding a line\<close>

lemma add_line_scan_fst: "fst (add_line_scan m ps (a, b)) = a"
  by (induction ps arbitrary: b) auto

text \<open>
  The scan for a near position never changes the variable that is tested afterwards, so
  \<^verbatim>\<open>Comparator.add_line\<close> stores the scan position whenever it is in bounds.
\<close>

lemma add_line_in_bounds:
  assumes "0 < M c" and "M c < real (plate_width c)"
  shows "data (Comparator_add_line c) = Data_add_line (M c) (intensity c (M c)) (data c)"
  using assms by (simp add: Comparator_add_line_def add_line_scan_fst)

text \<open>
  C1 (the source departs from the claim).  With a line stored at 50 and the scan position
  at 50.05, within 0.1 of it and inside a plate 100 pixels wide, \<^verbatim>\<open>Comparator.add_line\<close>
  stores a second line and reports success.
\<close>

theorem add_line_stores_near_duplicate:
  "\<bar>50 - M dup_state\<bar> < 0.1 \<and> 0 < M dup_state \<and> M dup_state < real (plate_width dup_state) \<and>
   get_positions (data dup_state) = [50] \<and>
   get_positions (data (Comparator_add_line dup_state)) = [50, 50.05] \<and>
   comment_notif (Comparator_add_line dup_state) = ''Line added.''"
  by (simp add: dup_state_def Comparator_add_line_def Data_init_def get_positions_def dd_keys_def
      Data_add_line_def dd_setitem_def)

subsection \<open>Deleting near lines\<close>

lemma delete_line_scan_correct:
  assumes "distinct ps" and "set ps \<subseteq> fst ` set (emission_lines d)"
  shows "\<exists>d'. delete_line_scan m ps (d, line) = Inr (d', line \<or> (\<exists>q\<in>set ps. \<bar>q - m\<bar> < 0.1)) \<and>
     emission_lines d' = filter (\<lambda>(q, i). \<not> (q \<in> set ps \<and> \<bar>q - m\<bar> < 0.1)) (emission_lines d) \<and>
     plate_resolution d' = plate_resolution d \<and> plate_offset d' = plate_offset d \<and>
     (\<forall>q. map_of (comments d') q =
        (if q \<in> set ps \<and> \<bar>q - m\<bar> < 0.1 then
           (if map_of (comments d) q = None \<or> map_of (comments d) q = Some [] then Some []
            else None)
         else map_of (comments d) q)) \<and>
     ((\<forall>q\<in>set ps. \<not> \<bar>q - m\<bar> < 0.1) \<longrightarrow> d' = d)"
  using assms
proof (induction ps arbitrary: d line)
  case Nil
  then show ?case by simp
next
  case (Cons pos ps)
  show ?case
  proof (cases "\<bar>pos - m\<bar> < 0.1")
    case False
    from Cons.prems have "distinct ps" "set ps \<subseteq> fst ` set (emission_lines d)" by auto
    from Cons.IH[OF this, of line]
    obtain d' where d':
      "delete_line_scan m ps (d, line) = Inr (d', line \<or> (\<exists>q\<in>set ps. \<bar>q - m\<bar> < 0.1))"
      "emission_lines d' =
         filter (\<lambda>(q, i). \<not> (q \<in> set ps \<and> \<bar>q - m\<bar> < 0.1)) (emission_lines d)"
      "plate_resolution d' = plate_resolution d" "plate_offset d' = plate_offset d"
      "\<forall>q. map_of (comments d') q =
        (if q \<in> set ps \<and> \<bar>q - m\<bar> < 0.1 then
           (if map_of (comments d) q = None \<or> map_of (comments d) q = Some [] then Some []
            else None)
         else map_of (comments d) q)"
      "(\<forall>q\<in>set ps. \<not> \<bar>q - m\<bar> < 0.1) \<longrightarrow> d' = d"
      by blast
    have p: "(q \<in> set (pos # ps) \<and> \<bar>q - m\<bar> < 0.1) = (q \<in> set ps \<and> \<bar>q - m\<bar> < 0.1)" for q
      using False by auto
    have x: "(\<exists>q\<in>set (pos # ps). \<bar>q - m\<bar> < 0.1) = (\<exists>q\<in>set ps. \<bar>q - m\<bar> < 0.1)"
      using False by auto
    have a: "delete_line_scan m (pos # ps) (d, line) =
        Inr (d', line \<or> (\<exists>q\<in>set (pos # ps). \<bar>q - m\<bar> < 0.1))"
      unfolding x using False d'(1) by simp
    show ?thesis
      unfolding p using a d'(2-6) by (intro exI[of _ d']) simp
  next
    case True
    from Cons.prems have mem: "map_of (emission_lines d) pos \<noteq> None"
      by (auto simp: map_of_eq_None_iff)
    define d1 where "d1 = d\<lparr>emission_lines := AList.delete pos (emission_lines d),
      comments := (case map_of (comments d) pos of None \<Rightarrow> comments d @ [(pos, [])]
                   | Some c \<Rightarrow> if c \<noteq> [] then AList.delete pos (comments d) else comments d)\<rparr>"
    have r: "remove_line pos d = Inr d1"
      using remove_line_eq[OF mem] by (simp add: d1_def)
    have e1: "emission_lines d1 = AList.delete pos (emission_lines d)"
      by (simp add: d1_def)
    have sub: "set ps \<subseteq> fst ` set (emission_lines d1)"
      using Cons.prems by (force simp: e1 AList.delete_eq)
    from Cons.prems have dis: "distinct ps" and notin: "pos \<notin> set ps" by auto
    from Cons.IH[OF dis sub, of True]
    obtain d' where d': "delete_line_scan m ps (d1, True) = Inr (d', True)"
      "emission_lines d' =
         filter (\<lambda>(q, i). \<not> (q \<in> set ps \<and> \<bar>q - m\<bar> < 0.1)) (emission_lines d1)"
      "plate_resolution d' = plate_resolution d1" "plate_offset d' = plate_offset d1"
      "\<forall>q. map_of (comments d') q =
        (if q \<in> set ps \<and> \<bar>q - m\<bar> < 0.1 then
           (if map_of (comments d1) q = None \<or> map_of (comments d1) q = Some [] then Some []
            else None)
         else map_of (comments d1) q)"
      by auto
    have a: "delete_line_scan m (pos # ps) (d, line) =
        Inr (d', line \<or> (\<exists>q\<in>set (pos # ps). \<bar>q - m\<bar> < 0.1))"
      using True r d'(1) by simp
    have b: "emission_lines d' =
        filter (\<lambda>(q, i). \<not> (q \<in> set (pos # ps) \<and> \<bar>q - m\<bar> < 0.1)) (emission_lines d)"
      using True by (auto simp: d'(2) e1 AList.delete_eq intro: filter_cong)
    have c: "plate_resolution d' = plate_resolution d \<and> plate_offset d' = plate_offset d"
      by (simp add: d'(3,4) d1_def)
    have e: "map_of (comments d') q =
        (if q \<in> set (pos # ps) \<and> \<bar>q - m\<bar> < 0.1 then
           (if map_of (comments d) q = None \<or> map_of (comments d) q = Some [] then Some []
            else None)
         else map_of (comments d) q)" for q
      using d'(5) remove_line_comments[OF r, of q] True notin by auto
    show ?thesis using a b c e True by auto
  qed
qed

text \<open>
  C5.  On a store with distinct keys \<^verbatim>\<open>Comparator.delete_line\<close> never raises; it removes
  every line whose position is within 0.1 of the scan position and keeps the others in
  order; a removed line that had a non-empty comment has no comment entry afterwards, and
  no removed line keeps a non-empty comment (a line whose comment was empty or absent keeps
  an empty-string entry, see C10); comments of other positions and the calibration are
  untouched; and when no stored position is within 0.1 the data are unchanged.
\<close>

theorem delete_line_removes_all_near:
  assumes "distinct (get_positions (data c))"
  shows "\<exists>c'. delete_line c = Inr c' \<and>
     emission_lines (data c') =
       filter (\<lambda>(q, i). \<not> \<bar>q - M c\<bar> < 0.1) (emission_lines (data c)) \<and>
     (\<forall>q\<in>set (get_positions (data c)). \<bar>q - M c\<bar> < 0.1 \<longrightarrow>
        q \<notin> set (get_positions (data c')) \<and>
        (map_of (comments (data c')) q = None \<or> map_of (comments (data c')) q = Some []) \<and>
        (\<forall>t. map_of (comments (data c)) q = Some t \<and> t \<noteq> [] \<longrightarrow>
           map_of (comments (data c')) q = None) \<and>
        (map_of (comments (data c)) q = None \<or> map_of (comments (data c)) q = Some [] \<longrightarrow>
           map_of (comments (data c')) q = Some [])) \<and>
     (\<forall>q. \<not> (q \<in> set (get_positions (data c)) \<and> \<bar>q - M c\<bar> < 0.1) \<longrightarrow>
        map_of (comments (data c')) q = map_of (comments (data c)) q) \<and>
     plate_resolution (data c') = plate_resolution (data c) \<and>
     plate_offset (data c') = plate_offset (data c) \<and>
     ((\<forall>q\<in>set (get_positions (data c)). \<not> \<bar>q - M c\<bar> < 0.1) \<longrightarrow> data c' = data c)"
proof -
  let ?ps = "get_positions (data c)"
  have sub: "set ?ps \<subseteq> fst ` set (emission_lines (data c))"
    by (simp add: get_positions_def dd_keys_def)
  from delete_line_scan_correct[OF assms sub, of "M c" False]
  obtain d' where d':
    "delete_line_scan (M c) ?ps (data c, False) = Inr (d', \<exists>q\<in>set ?ps. \<bar>q - M c\<bar> < 0.1)"
    "emission_lines d' =
       filter (\<lambda>(q, i). \<not> (q \<in> set ?ps \<and> \<bar>q - M c\<bar> < 0.1)) (emission_lines (data c))"
    "plate_resolution d' = plate_resolution (data c)" "plate_offset d' = plate_offset (data c)"
    "\<forall>q. map_of (comments d') q =
        (if q \<in> set ?ps \<and> \<bar>q - M c\<bar> < 0.1 then
           (if map_of (comments (data c)) q = None \<or> map_of (comments (data c)) q = Some []
            then Some [] else None)
         else map_of (comments (data c)) q)"
    "(\<forall>q\<in>set ?ps. \<not> \<bar>q - M c\<bar> < 0.1) \<longrightarrow> d' = data c"
    by auto
  obtain c' where c': "delete_line c = Inr c'" "data c' = d'"
    using d'(1) by (cases "\<exists>q\<in>set ?ps. \<bar>q - M c\<bar> < 0.1") (auto simp: delete_line_def)
  have lines: "emission_lines d' =
      filter (\<lambda>(q, i). \<not> \<bar>q - M c\<bar> < 0.1) (emission_lines (data c))"
    unfolding d'(2)
    by (rule filter_cong) (force simp: get_positions_def dd_keys_def)+
  have gone: "q \<notin> set (get_positions d')" if "\<bar>q - M c\<bar> < 0.1" for q
    using that by (auto simp: get_positions_def dd_keys_def lines)
  have near: "q \<notin> set (get_positions d') \<and>
        (map_of (comments d') q = None \<or> map_of (comments d') q = Some []) \<and>
        (\<forall>t. map_of (comments (data c)) q = Some t \<and> t \<noteq> [] \<longrightarrow> map_of (comments d') q = None) \<and>
        (map_of (comments (data c)) q = None \<or> map_of (comments (data c)) q = Some [] \<longrightarrow>
           map_of (comments d') q = Some [])"
    if "q \<in> set ?ps" "\<bar>q - M c\<bar> < 0.1" for q
    using that gone[of q] d'(5) by auto
  have other: "map_of (comments d') q = map_of (comments (data c)) q"
    if "\<not> (q \<in> set ?ps \<and> \<bar>q - M c\<bar> < 0.1)" for q
    using that d'(5) by auto
  show ?thesis
    using c' lines near other d'(3,4,6) by (intro exI[of _ c']) simp
qed

theorem delete_line_removes_all_near_witness:
  "distinct (get_positions (data near_state)) \<and>
   (\<exists>c'. delete_line near_state = Inr c' \<and>
      emission_lines (data c') = [(10, 7)] \<and>
      map_of (comments (data c')) 50 = None \<and>
      map_of (comments (data c')) 50.05 = Some [] \<and>
      map_of (comments (data c')) 10 = Some ''Ne'')"
proof -
  have h: "distinct (get_positions (data near_state))"
    by (simp add: near_state_def commented_data_def Data_init_def get_positions_def dd_keys_def)
  have v: "get_positions (data near_state) = [50, 10, 50.05]" "M near_state = 50.02"
      "emission_lines (data near_state) = [(50, 128), (10, 7), (50.05, 127)]"
      "comments (data near_state) = [(50, ''Fe''), (10, ''Ne'')]"
    by (simp_all add: near_state_def commented_data_def Data_init_def get_positions_def dd_keys_def)
  from delete_line_removes_all_near[OF h]
  show ?thesis
    unfolding v using h by (auto simp: v)
qed

subsection \<open>Adding a comment\<close>

lemma add_comment_scan_correct:
  "\<exists>d'. add_comment_scan m txt ps (d, line) = (d', line \<or> (\<exists>q\<in>set ps. \<bar>q - m\<bar> < 0.1)) \<and>
     emission_lines d' = emission_lines d \<and>
     plate_resolution d' = plate_resolution d \<and> plate_offset d' = plate_offset d \<and>
     (\<forall>q. map_of (comments d') q =
        (if q \<in> set ps \<and> \<bar>q - m\<bar> < 0.1 then Some txt else map_of (comments d) q)) \<and>
     ((\<forall>q\<in>set ps. \<not> \<bar>q - m\<bar> < 0.1) \<longrightarrow> d' = d)"
proof (induction ps arbitrary: d line)
  case Nil
  then show ?case by simp
next
  case (Cons pos ps)
  show ?case
  proof (cases "\<bar>pos - m\<bar> < 0.1")
    case False
    obtain d' where d': "add_comment_scan m txt ps (d, line) = (d', line \<or> (\<exists>q\<in>set ps. \<bar>q - m\<bar> < 0.1))"
      "emission_lines d' = emission_lines d"
      "plate_resolution d' = plate_resolution d" "plate_offset d' = plate_offset d"
      "\<forall>q. map_of (comments d') q =
        (if q \<in> set ps \<and> \<bar>q - m\<bar> < 0.1 then Some txt else map_of (comments d) q)"
      "(\<forall>q\<in>set ps. \<not> \<bar>q - m\<bar> < 0.1) \<longrightarrow> d' = d"
      using Cons.IH[of d line] by blast
    have p: "(q \<in> set (pos # ps) \<and> \<bar>q - m\<bar> < 0.1) = (q \<in> set ps \<and> \<bar>q - m\<bar> < 0.1)" for q
      using False by auto
    have x: "(\<exists>q\<in>set (pos # ps). \<bar>q - m\<bar> < 0.1) = (\<exists>q\<in>set ps. \<bar>q - m\<bar> < 0.1)"
      using False by auto
    have a: "add_comment_scan m txt (pos # ps) (d, line) = (d', line \<or> (\<exists>q\<in>set (pos # ps). \<bar>q - m\<bar> < 0.1))"
      unfolding x using False d'(1) by simp
    show ?thesis
      unfolding p using a d'(2-6) by (intro exI[of _ d']) simp
  next
    case True
    define d1 where "d1 = Data_add_comment pos txt d"
    obtain d' where d': "add_comment_scan m txt ps (d1, True) = (d', True)"
      "emission_lines d' = emission_lines d1"
      "plate_resolution d' = plate_resolution d1" "plate_offset d' = plate_offset d1"
      "\<forall>q. map_of (comments d') q =
        (if q \<in> set ps \<and> \<bar>q - m\<bar> < 0.1 then Some txt else map_of (comments d1) q)"
      using Cons.IH[of d1 True] by auto
    have c1: "map_of (comments d1) q = (if q = pos then Some txt else map_of (comments d) q)" for q
      by (simp add: d1_def Data_add_comment_def dd_setitem_def update_conv')
    have a: "add_comment_scan m txt (pos # ps) (d, line) = (d', line \<or> (\<exists>q\<in>set (pos # ps). \<bar>q - m\<bar> < 0.1))"
      using True d'(1) by (simp add: d1_def)
    have b: "emission_lines d' = emission_lines d \<and> plate_resolution d' = plate_resolution d \<and>
        plate_offset d' = plate_offset d"
      by (simp add: d'(2-4) d1_def Data_add_comment_def)
    have e: "map_of (comments d') q =
        (if q \<in> set (pos # ps) \<and> \<bar>q - m\<bar> < 0.1 then Some txt else map_of (comments d) q)" for q
      using d'(5) c1[of q] True by auto
    show ?thesis using a b e True by auto
  qed
qed

text \<open>
  C6 as stated fails: \<^verbatim>\<open>Data.add_comment\<close> at a position that is no stored key is not an
  error; it inserts a comment entry for the position.
\<close>

theorem add_comment_missing_key_inserts:
  "5 \<notin> set (get_positions Data_init) \<and>
   Data_add_comment 5 ''Fe'' Data_init = Data_init\<lparr>comments := [(5, ''Fe'')]\<rparr> \<and>
   Data_add_comment 5 ''Fe'' Data_init \<noteq> Data_init"
  by (simp add: Data_add_comment_def Data_init_def get_positions_def dd_keys_def dd_setitem_def)

text \<open>
  C6, amended.  \<^verbatim>\<open>Data.add_comment\<close> always succeeds: it sets the comment of exactly the
  given key (overwriting or inserting) and changes nothing else.  The refusal is in the
  caller: \<^verbatim>\<open>Comparator.add_comment\<close> leaves the data unchanged and shows the error text when
  no stored position is within 0.1 of the scan position, and otherwise sets the entry text
  as the comment of every stored position within 0.1, leaving the lines alone.
\<close>

theorem add_comment_sets_exact_key:
  "comments (Data_add_comment p txt d) = AList.update p txt (comments d) \<and>
   map_of (comments (Data_add_comment p txt d)) p = Some txt \<and>
   (\<forall>q. q \<noteq> p \<longrightarrow> map_of (comments (Data_add_comment p txt d)) q = map_of (comments d) q) \<and>
   emission_lines (Data_add_comment p txt d) = emission_lines d \<and>
   plate_resolution (Data_add_comment p txt d) = plate_resolution d \<and>
   plate_offset (Data_add_comment p txt d) = plate_offset d \<and>
   ((\<forall>q\<in>set (get_positions (data c)). \<not> \<bar>q - M c\<bar> < 0.1) \<longrightarrow>
      data (Comparator_add_comment c) = data c \<and>
      comment_notif (Comparator_add_comment c) =
        ''Error: Line not found.'' @ [CHR 0x0A] @ ''Comment not added.'') \<and>
   ((\<exists>q\<in>set (get_positions (data c2)). \<bar>q - M c2\<bar> < 0.1) \<longrightarrow>
      emission_lines (data (Comparator_add_comment c2)) = emission_lines (data c2) \<and>
      (\<forall>q. map_of (comments (data (Comparator_add_comment c2))) q =
         (if q \<in> set (get_positions (data c2)) \<and> \<bar>q - M c2\<bar> < 0.1
          then Some (comment_entry c2) else map_of (comments (data c2)) q)) \<and>
      comment_notif (Comparator_add_comment c2) = ''Comment added.'')"
proof -
  have scan: "\<exists>d'. add_comment_scan (M k) (comment_entry k) (get_positions (data k)) (data k, False)
       = (d', \<exists>q\<in>set (get_positions (data k)). \<bar>q - M k\<bar> < 0.1) \<and>
     emission_lines d' = emission_lines (data k) \<and>
     (\<forall>q. map_of (comments d') q =
        (if q \<in> set (get_positions (data k)) \<and> \<bar>q - M k\<bar> < 0.1 then Some (comment_entry k)
         else map_of (comments (data k)) q)) \<and>
     ((\<forall>q\<in>set (get_positions (data k)). \<not> \<bar>q - M k\<bar> < 0.1) \<longrightarrow> d' = data k)"
    for k :: Comparator
  proof -
    obtain d' where d':
      "add_comment_scan (M k) (comment_entry k) (get_positions (data k)) (data k, False)
         = (d', False \<or> (\<exists>q\<in>set (get_positions (data k)). \<bar>q - M k\<bar> < 0.1))"
      "emission_lines d' = emission_lines (data k)"
      "\<forall>q. map_of (comments d') q =
        (if q \<in> set (get_positions (data k)) \<and> \<bar>q - M k\<bar> < 0.1 then Some (comment_entry k)
         else map_of (comments (data k)) q)"
      "(\<forall>q\<in>set (get_positions (data k)). \<not> \<bar>q - M k\<bar> < 0.1) \<longrightarrow> d' = data k"
      using add_comment_scan_correct
        [of "M k" "comment_entry k" "get_positions (data k)" "data k" False]
      by blast
    then show ?thesis by (intro exI[of _ d']) simp
  qed
  have caller_none: "(\<forall>q\<in>set (get_positions (data c)). \<not> \<bar>q - M c\<bar> < 0.1) \<longrightarrow>
      data (Comparator_add_comment c) = data c \<and>
      comment_notif (Comparator_add_comment c) =
        ''Error: Line not found.'' @ [CHR 0x0A] @ ''Comment not added.''"
  proof
    assume none: "\<forall>q\<in>set (get_positions (data c)). \<not> \<bar>q - M c\<bar> < 0.1"
    then have "add_comment_scan (M c) (comment_entry c) (get_positions (data c)) (data c, False)
        = (data c, False)"
      using scan[of c] by auto
    then show "data (Comparator_add_comment c) = data c \<and>
      comment_notif (Comparator_add_comment c) =
        ''Error: Line not found.'' @ [CHR 0x0A] @ ''Comment not added.''"
      by (simp add: Comparator_add_comment_def)
  qed
  have caller_some: "(\<exists>q\<in>set (get_positions (data c2)). \<bar>q - M c2\<bar> < 0.1) \<longrightarrow>
      emission_lines (data (Comparator_add_comment c2)) = emission_lines (data c2) \<and>
      (\<forall>q. map_of (comments (data (Comparator_add_comment c2))) q =
         (if q \<in> set (get_positions (data c2)) \<and> \<bar>q - M c2\<bar> < 0.1
          then Some (comment_entry c2) else map_of (comments (data c2)) q)) \<and>
      comment_notif (Comparator_add_comment c2) = ''Comment added.''"
  proof
    assume some: "\<exists>q\<in>set (get_positions (data c2)). \<bar>q - M c2\<bar> < 0.1"
    obtain d' where d':
      "add_comment_scan (M c2) (comment_entry c2) (get_positions (data c2)) (data c2, False)
         = (d', \<exists>q\<in>set (get_positions (data c2)). \<bar>q - M c2\<bar> < 0.1)"
      "emission_lines d' = emission_lines (data c2)"
      "\<forall>q. map_of (comments d') q =
        (if q \<in> set (get_positions (data c2)) \<and> \<bar>q - M c2\<bar> < 0.1
         then Some (comment_entry c2) else map_of (comments (data c2)) q)"
      using scan[of c2] by blast
    have "Comparator_add_comment c2 = c2\<lparr>data := d', comment_notif := ''Comment added.''\<rparr>"
      using d'(1) some by (simp add: Comparator_add_comment_def)
    then show "emission_lines (data (Comparator_add_comment c2)) = emission_lines (data c2) \<and>
      (\<forall>q. map_of (comments (data (Comparator_add_comment c2))) q =
         (if q \<in> set (get_positions (data c2)) \<and> \<bar>q - M c2\<bar> < 0.1
          then Some (comment_entry c2) else map_of (comments (data c2)) q)) \<and>
      comment_notif (Comparator_add_comment c2) = ''Comment added.''"
      using d'(2,3) by simp
  qed
  have store: "comments (Data_add_comment p txt d) = AList.update p txt (comments d) \<and>
   map_of (comments (Data_add_comment p txt d)) p = Some txt \<and>
   (\<forall>q. q \<noteq> p \<longrightarrow> map_of (comments (Data_add_comment p txt d)) q = map_of (comments d) q) \<and>
   emission_lines (Data_add_comment p txt d) = emission_lines d \<and>
   plate_resolution (Data_add_comment p txt d) = plate_resolution d \<and>
   plate_offset (Data_add_comment p txt d) = plate_offset d"
    by (simp add: Data_add_comment_def dd_setitem_def update_conv')
  show ?thesis using store caller_none caller_some by blast
qed

theorem add_comment_sets_exact_key_witness:
  "list_all (\<lambda>q. \<not> \<bar>q - M far_state\<bar> < 0.1) (get_positions (data far_state)) \<and>
   data (Comparator_add_comment far_state) = data far_state \<and>
   (\<exists>q\<in>set (get_positions (data near_state)). \<bar>q - M near_state\<bar> < 0.1) \<and>
   emission_lines (data (Comparator_add_comment near_state)) = emission_lines (data near_state) \<and>
   map_of (comments (data (Comparator_add_comment near_state))) 50 = Some ''Cu'' \<and>
   map_of (comments (data (Comparator_add_comment near_state))) 50.05 = Some ''Cu'' \<and>
   map_of (comments (data (Comparator_add_comment near_state))) 10 = Some ''Ne'' \<and>
   comment_notif (Comparator_add_comment near_state) = ''Comment added.'' \<and>
   map_of (comments (Data_add_comment 5 ''Fe'' Data_init)) 5 = Some ''Fe''"
proof -
  have far: "\<forall>q\<in>set (get_positions (data far_state)). \<not> \<bar>q - M far_state\<bar> < 0.1"
    by (simp add: far_state_def commented_data_def Data_init_def get_positions_def dd_keys_def)
  have near: "\<exists>q\<in>set (get_positions (data near_state)). \<bar>q - M near_state\<bar> < 0.1"
    by (simp add: near_state_def commented_data_def Data_init_def get_positions_def dd_keys_def)
  have v: "get_positions (data near_state) = [50, 10, 50.05]" "M near_state = 50.02"
      "comments (data near_state) = [(50, ''Fe''), (10, ''Ne'')]" "comment_entry near_state = ''Cu''"
    by (simp_all add: near_state_def commented_data_def Data_init_def get_positions_def dd_keys_def)
  from add_comment_sets_exact_key[of 5 "''Fe''" Data_init far_state near_state] far near
  show ?thesis
    by (simp add: v update_conv' list_all_iff)
qed

subsection \<open>Splitting lines\<close>

lemma split_from_token:
  assumes "\<forall>c\<in>set t. \<not> isspace c"
  shows "split_from tok (t @ rest) = split_from (tok @ t) rest"
  using assms by (induction t arbitrary: tok) auto

lemma split_from_blanks:
  "split_from [] (replicate n (CHR '' '') @ rest) = split_from [] rest"
  by (induction n) (auto simp: isspace_def)

lemma split_from_space:
  assumes "isspace c" and "tok \<noteq> []"
  shows "split_from tok (c # rest) = tok # split_from [] rest"
  using assms by simp

lemma isspace_blank [simp]: "isspace (CHR '' '')" "isspace (CHR 0x0A)"
  by (simp_all add: isspace_def)

lemma split_padded_token:
  assumes "t \<noteq> []" and "\<forall>c\<in>set t. \<not> isspace c"
  shows "split_from [] (rjust w t @ CHR '' '' # rest) = t # split_from [] rest"
proof -
  have "split_from [] (rjust w t @ CHR '' '' # rest) = split_from [] (t @ CHR '' '' # rest)"
    by (simp add: rjust_def split_from_blanks)
  also have "\<dots> = split_from t (CHR '' '' # rest)"
    using split_from_token[OF assms(2), of "[]"] by simp
  also have "\<dots> = t # split_from [] rest"
    using assms(1) by simp
  finally show ?thesis .
qed

lemma split_row:
  assumes "a \<noteq> []" "\<forall>ch\<in>set a. \<not> isspace ch" "b \<noteq> []" "\<forall>ch\<in>set b. \<not> isspace ch"
    and "\<forall>ch\<in>set c. \<not> isspace ch"
  shows "str_split ('' '' @ rjust 8 a @ '' '' @ '' '' @ rjust 10 b @ ''  '' @ '' '' @ c @ [CHR 0x0A])
     = a # b # (if c = [] then [] else [c])"
proof -
  have tail: "split_from [] (CHR '' '' # CHR '' '' # c @ [CHR 0x0A]) = (if c = [] then [] else [c])"
  proof -
    have "split_from [] (c @ [CHR 0x0A]) = split_from c [CHR 0x0A]"
      using split_from_token[OF assms(5), of "[]"] by simp
    then show ?thesis by simp
  qed
  have "str_split ('' '' @ rjust 8 a @ '' '' @ '' '' @ rjust 10 b @ ''  '' @ '' '' @ c @ [CHR 0x0A])
      = split_from [] (rjust 8 a @ CHR '' '' # (CHR '' '' # rjust 10 b @ CHR '' '' #
          (CHR '' '' # CHR '' '' # c @ [CHR 0x0A])))"
    by (simp add: str_split_def)
  also have "\<dots> = a # split_from [] (CHR '' '' # rjust 10 b @ CHR '' '' #
          (CHR '' '' # CHR '' '' # c @ [CHR 0x0A]))"
    by (rule split_padded_token[OF assms(1,2)])
  also have "\<dots> = a # split_from [] (rjust 10 b @ CHR '' '' #
          (CHR '' '' # CHR '' '' # c @ [CHR 0x0A]))"
    by simp
  also have "\<dots> = a # b # split_from [] (CHR '' '' # CHR '' '' # c @ [CHR 0x0A])"
    by (simp add: split_padded_token[OF assms(3,4)])
  finally show ?thesis using tail by simp
qed

lemma split_resolution_header:
  assumes "x \<noteq> []" "\<forall>ch\<in>set x. \<not> isspace ch"
  shows "str_split (''Plate Resolution: '' @ x @ '' px/mm'' @ [CHR 0x0A])
     = [''Plate'', ''Resolution:'', x, ''px/mm'']"
proof -
  have "str_split (''Plate Resolution: '' @ x @ '' px/mm'' @ [CHR 0x0A])
     = ''Plate'' # ''Resolution:'' # split_from [] (x @ '' px/mm'' @ [CHR 0x0A])"
    by (simp add: str_split_def isspace_def)
  also have "split_from [] (x @ '' px/mm'' @ [CHR 0x0A]) = split_from x ('' px/mm'' @ [CHR 0x0A])"
    using split_from_token[OF assms(2), of "[]"] by simp
  also have "\<dots> = [x, ''px/mm'']"
    using assms(1) by (simp add: isspace_def)
  finally show ?thesis by simp
qed

lemma split_offset_header:
  assumes "x \<noteq> []" "\<forall>ch\<in>set x. \<not> isspace ch"
  shows "str_split (''Plate Offset: '' @ x @ '' mm'' @ [CHR 0x0A])
     = [''Plate'', ''Offset:'', x, ''mm'']"
proof -
  have "str_split (''Plate Offset: '' @ x @ '' mm'' @ [CHR 0x0A])
     = ''Plate'' # ''Offset:'' # split_from [] (x @ '' mm'' @ [CHR 0x0A])"
    by (simp add: str_split_def isspace_def)
  also have "split_from [] (x @ '' mm'' @ [CHR 0x0A]) = split_from x ('' mm'' @ [CHR 0x0A])"
    using split_from_token[OF assms(2), of "[]"] by simp
  also have "\<dots> = [x, ''mm'']"
    using assms(1) by (simp add: isspace_def)
  finally show ?thesis by simp
qed

subsection \<open>Reading rows\<close>

lemma parse_row_calibration:
  assumes "plate_resolution d2 = plate_resolution d" and "plate_offset d2 = plate_offset d"
  shows "parse_row float d2 line = parse_row float d line"
  using assms by (simp add: parse_row_def split: list.splits option.splits)

lemma parse_row_fields:
  assumes "parse_row float d l = Inr t"
  shows "\<exists>t0 t1 ts x i. str_split l = t0 # t1 # ts \<and> float t0 = Some x \<and> float t1 = Some i \<and>
     t = ((x - plate_offset d) * plate_resolution d, i, (case ts of [] \<Rightarrow> [] | t2 # _ \<Rightarrow> t2))"
proof (cases "str_split l")
  case Nil
  then show ?thesis using assms by (simp add: parse_row_def)
next
  case c0: (Cons t0 ts0)
  show ?thesis
  proof (cases "float t0")
    case None
    then show ?thesis using assms c0 by (simp add: parse_row_def)
  next
    case x: (Some x)
    show ?thesis
    proof (cases ts0)
      case Nil
      then show ?thesis using assms c0 x by (simp add: parse_row_def)
    next
      case c1: (Cons t1 ts)
      show ?thesis
      proof (cases "float t1")
        case None
        then show ?thesis using assms c0 x c1 by (simp add: parse_row_def)
      next
        case i: (Some i)
        have "t = ((x - plate_offset d) * plate_resolution d, i,
            (case ts of [] \<Rightarrow> [] | t2 # _ \<Rightarrow> t2))"
          using assms c0 x c1 i by (simp add: parse_row_def)
        then show ?thesis using c0 x c1 i by blast
      qed
    qed
  qed
qed

lemma load_rows_calibration:
  "plate_resolution (snd (load_rows float ls d)) = plate_resolution d \<and>
   plate_offset (snd (load_rows float ls d)) = plate_offset d"
proof (induction ls arbitrary: d)
  case Nil
  show ?case by simp
next
  case (Cons l ls)
  show ?case
  proof (cases "parse_row float d l")
    case (Inl e)
    then show ?thesis by simp
  next
    case (Inr t)
    obtain p i c where t: "t = (p, i, c)" by (cases t)
    show ?thesis using Inr t Cons.IH by simp
  qed
qed

text \<open>
  When every row parses, the loop stores the rows in order; a later row with the same
  position overwrites an earlier one.
\<close>

lemma load_rows_parsed:
  assumes "\<forall>l\<in>set ls. \<exists>t. parse_row float d l = Inr t"
  shows "load_rows float ls d =
     (None, d\<lparr>emission_lines :=
                 fold (\<lambda>l el. case projr (parse_row float d l) of (p, i, c) \<Rightarrow> dd_setitem el p i)
                   ls (emission_lines d),
               comments :=
                 fold (\<lambda>l cm. case projr (parse_row float d l) of (p, i, c) \<Rightarrow> dd_setitem cm p c)
                   ls (comments d)\<rparr>)"
  using assms
proof (induction ls arbitrary: d)
  case Nil
  show ?case by simp
next
  case (Cons l ls)
  from Cons.prems obtain p i c where t: "parse_row float d l = Inr (p, i, c)"
    by (metis list.set_intros(1) prod_cases3)
  define d1 where "d1 = d\<lparr>emission_lines := dd_setitem (emission_lines d) p i,
               comments := dd_setitem (comments d) p c\<rparr>"
  have same: "parse_row float d1 l' = parse_row float d l'" for l'
    by (rule parse_row_calibration) (simp_all add: d1_def)
  have "\<forall>l\<in>set ls. \<exists>t. parse_row float d1 l = Inr t"
    using Cons.prems same by simp
  from Cons.IH[OF this]
  show ?case using t by (simp add: d1_def same[unfolded d1_def])
qed

lemma load_rows_error_position:
  assumes "fst (load_rows float ls d) = None"
  shows "\<forall>l\<in>set ls. \<exists>t. parse_row float d l = Inr t"
  using assms
proof (induction ls arbitrary: d)
  case Nil
  show ?case by simp
next
  case (Cons l ls)
  show ?case
  proof (cases "parse_row float d l")
    case (Inl e)
    then show ?thesis using Cons.prems by simp
  next
    case (Inr t)
    obtain p i c where t: "t = (p, i, c)" by (cases t)
    define d1 where "d1 = d\<lparr>emission_lines := dd_setitem (emission_lines d) p i,
               comments := dd_setitem (comments d) p c\<rparr>"
    have same: "parse_row float d1 l' = parse_row float d l'" for l'
      by (rule parse_row_calibration) (simp_all add: d1_def)
    have "fst (load_rows float ls d1) = None"
      using Cons.prems Inr t by (simp add: d1_def)
    from Cons.IH[OF this] have "\<forall>l'\<in>set ls. \<exists>t. parse_row float d l' = Inr t"
      using same by simp
    then show ?thesis using Inr t by simp
  qed
qed

lemma map_of_fold_setitem:
  "map_of (fold (\<lambda>l al. case f l of (k, v) \<Rightarrow> dd_setitem al k v) ls al) =
   map_of (rev (map f ls) @ al)"
proof (induction ls arbitrary: al)
  case Nil
  show ?case by simp
next
  case (Cons l ls)
  obtain k v where kv: "f l = (k, v)" by (cases "f l")
  have "map_of (fold (\<lambda>l al. case f l of (k, v) \<Rightarrow> dd_setitem al k v) (l # ls) al)
      = map_of (rev (map f ls) @ dd_setitem al k v)"
    using Cons.IH[of "dd_setitem al k v"] kv by simp
  also have "\<dots> = map_of (rev (map f (l # ls)) @ al)"
    by (simp add: kv dd_setitem_def update_conv' map_add_def fun_eq_iff split: option.splits)
  finally show ?case .
qed

lemma fold_setitem_fresh:
  assumes "distinct (map (fst \<circ> f) ls)" and "\<forall>l\<in>set ls. fst (f l) \<notin> fst ` set al"
  shows "fold (\<lambda>l al. case f l of (k, v) \<Rightarrow> dd_setitem al k v) ls al = al @ map f ls"
  using assms
proof (induction ls arbitrary: al)
  case Nil
  show ?case by simp
next
  case (Cons l ls)
  obtain k v where kv: "f l = (k, v)" by (cases "f l")
  have fresh: "k \<notin> fst ` set al" using Cons.prems(2) kv by force
  have step: "dd_setitem al k v = al @ [(k, v)]"
    using fresh by (induction al) (auto simp: dd_setitem_def)
  have d: "distinct (map (fst \<circ> f) ls)" using Cons.prems(1) by (simp add: comp_def)
  have n: "\<forall>l'\<in>set ls. fst (f l') \<notin> fst ` set (al @ [(k, v)])"
    using Cons.prems kv by (auto simp: image_iff)
  show ?case
    using Cons.IH[OF d n] kv step by simp
qed

subsection \<open>Loading a line file\<close>

lemma load_rows_append:
  "load_rows float (ls1 @ ls2) d =
     (case load_rows float ls1 d of
        (None, d1) \<Rightarrow> load_rows float ls2 d1
      | (Some e, d1) \<Rightarrow> (Some e, d1))"
proof (induction ls1 arbitrary: d)
  case Nil
  show ?case by simp
next
  case (Cons l ls1)
  show ?case
  proof (cases "parse_row float d l")
    case (Inl e)
    then show ?thesis by simp
  next
    case (Inr t)
    obtain p i c where t: "t = (p, i, c)" by (cases t)
    show ?thesis using Inr t Cons.IH by simp
  qed
qed

lemma load_rows_failing_row:
  assumes "\<forall>l'\<in>set ls1. \<exists>t. parse_row float d l' = Inr t" and "parse_row float d l = Inl e"
  shows "load_rows float (ls1 @ l # ls2) d = (Some e, snd (load_rows float ls1 d))"
proof -
  obtain d1 where d1: "load_rows float ls1 d = (None, d1)"
    using load_rows_parsed[OF assms(1)] by simp
  have cal: "plate_resolution d1 = plate_resolution d" "plate_offset d1 = plate_offset d"
    using load_rows_calibration[of float ls1 d] d1 by simp_all
  have "parse_row float d1 l = Inl e"
    using parse_row_calibration[OF cal] assms(2) by simp
  then show ?thesis
    by (simp add: load_rows_append d1)
qed

text \<open>What a successful load has read.\<close>

lemma load_lines_success:
  assumes "load_lines float name d = (None, d')"
  shows "\<exists>lines_file r off. name = Some lines_file \<and>
     header_value float lines_file 0 = Inr r \<and> header_value float lines_file 1 = Inr off \<and>
     load_rows float (drop 3 lines_file)
       \<lparr>plate_resolution = r, plate_offset = off, emission_lines = [], comments = []\<rparr> = (None, d')"
proof (cases name)
  case None
  then show ?thesis using assms by (simp add: load_lines_def Let_def)
next
  case (Some lines_file)
  show ?thesis
  proof (cases "header_value float lines_file 0")
    case (Inl e)
    then show ?thesis using assms Some by (simp add: load_lines_def Let_def)
  next
    case r: (Inr r)
    show ?thesis
    proof (cases "header_value float lines_file 1")
      case (Inl e)
      then show ?thesis using assms Some r by (simp add: load_lines_def Let_def)
    next
      case off: (Inr off)
      have eq: "d\<lparr>emission_lines := [], comments := [], plate_resolution := r, plate_offset := off\<rparr>
          = \<lparr>plate_resolution = r, plate_offset = off, emission_lines = [], comments = []\<rparr>"
        by simp
      have "load_lines float name d = load_rows float (drop 3 lines_file)
          (d\<lparr>emission_lines := [], comments := [], plate_resolution := r, plate_offset := off\<rparr>)"
        using Some r off by (simp add: load_lines_def Let_def)
      then show ?thesis using assms Some r off unfolding eq by simp
    qed
  qed
qed

lemma load_lines_headers_read:
  assumes "header_value float lines_file 0 = Inr r" and "header_value float lines_file 1 = Inr off"
  shows "load_lines float (Some lines_file) d =
     load_rows float (drop 3 lines_file)
       \<lparr>plate_resolution = r, plate_offset = off, emission_lines = [], comments = []\<rparr>"
proof -
  have eq: "d\<lparr>emission_lines := [], comments := [], plate_resolution := r, plate_offset := off\<rparr>
      = \<lparr>plate_resolution = r, plate_offset = off, emission_lines = [], comments = []\<rparr>"
    by simp
  have "load_lines float (Some lines_file) d = load_rows float (drop 3 lines_file)
      (d\<lparr>emission_lines := [], comments := [], plate_resolution := r, plate_offset := off\<rparr>)"
    using assms by (simp add: load_lines_def Let_def)
  then show ?thesis unfolding eq .
qed

subsection \<open>The loader against the file format\<close>

lemma header_value_scalar:
  "header_value float lines_file n = Inr x \<longleftrightarrow>
     n < length lines_file \<and> header_scalar float (lines_file ! n) = Some x"
  by (simp add: header_value_def header_scalar_def Let_def split: option.splits)

lemma header_value_fails:
  assumes "length lines_file \<le> n \<or> header_scalar float (lines_file ! n) = None"
  shows "\<exists>e. header_value float lines_file n = Inl e"
proof (cases "header_value float lines_file n")
  case (Inl e)
  then show ?thesis by blast
next
  case (Inr x)
  then have "n < length lines_file \<and> header_scalar float (lines_file ! n) = Some x"
    by (simp only: header_value_scalar)
  then show ?thesis using assms by auto
qed

lemma parse_row_two_fields:
  assumes "two_numeric_fields float l"
  shows "parse_row float d l =
     Inr (row_position float (plate_resolution d) (plate_offset d) l, row_intensity float l,
          row_comment l)"
proof -
  from assms obtain t0 t1 ts where s: "str_split l = t0 # t1 # ts"
    by (cases "str_split l"; cases "tl (str_split l)") (auto simp: two_numeric_fields_def)
  from assms s obtain x i where f: "float t0 = Some x" "float t1 = Some i"
    by (auto simp: two_numeric_fields_def)
  show ?thesis
    by (cases ts)
      (simp_all add: parse_row_def s f row_position_def row_intensity_def row_comment_def)
qed

lemma parse_row_missing_field:
  assumes "\<not> two_numeric_fields float l"
  shows "\<exists>e. parse_row float d l = Inl e"
proof (cases "parse_row float d l")
  case (Inl e)
  then show ?thesis by blast
next
  case (Inr t)
  from parse_row_fields[OF this] have "two_numeric_fields float l"
    by (auto simp: two_numeric_fields_def)
  then show ?thesis using assms by simp
qed

lemma load_rows_stored:
  assumes "\<forall>l\<in>set ls. two_numeric_fields float l"
  shows "load_rows float ls
       \<lparr>plate_resolution = r, plate_offset = off, emission_lines = [], comments = []\<rparr>
     = (None, stored_rows float r off ls)"
proof -
  let ?d0 = "\<lparr>plate_resolution = r, plate_offset = off, emission_lines = [], comments = []\<rparr>"
  have p: "parse_row float ?d0 l =
      Inr (row_position float r off l, row_intensity float l, row_comment l)"
    if "l \<in> set ls" for l
    using parse_row_two_fields[of float l ?d0] assms that by simp
  then have ok: "\<forall>l\<in>set ls. \<exists>t. parse_row float ?d0 l = Inr t"
    by blast
  have el: "fold (\<lambda>l el. case projr (parse_row float ?d0 l) of (p, i, c) \<Rightarrow> dd_setitem el p i)
        ls [] =
      fold (\<lambda>l. AList.update (row_position float r off l) (row_intensity float l)) ls []"
    by (rule fold_cong) (simp_all add: p dd_setitem_def fun_eq_iff)
  have cm: "fold (\<lambda>l cm. case projr (parse_row float ?d0 l) of (p, i, c) \<Rightarrow> dd_setitem cm p c)
        ls [] =
      fold (\<lambda>l. AList.update (row_position float r off l) (row_comment l)) ls []"
    by (rule fold_cong) (simp_all add: p dd_setitem_def fun_eq_iff)
  show ?thesis
    unfolding load_rows_parsed[OF ok]
    by (simp add: el cm stored_rows_def)
qed

lemma map_of_fold_update:
  "map_of (fold (\<lambda>l. AList.update (k l) (v l)) ls al) = map_of (rev (map (\<lambda>l. (k l, v l)) ls) @ al)"
  using map_of_fold_setitem[of "\<lambda>l. (k l, v l)" ls al] by (simp add: dd_setitem_def)

lemma fold_update_fresh:
  assumes "distinct (map k ls)"
  shows "fold (\<lambda>l. AList.update (k l) (v l)) ls [] = map (\<lambda>l. (k l, v l)) ls"
  using fold_setitem_fresh[of "\<lambda>l. (k l, v l)" ls "[]"] assms
  by (simp add: dd_setitem_def comp_def)

lemma load_lines_stored:
  assumes "2 \<le> length lines_file"
    and "header_scalar float (lines_file ! 0) = Some r"
    and "header_scalar float (lines_file ! 1) = Some off"
    and "\<forall>l\<in>set (drop 3 lines_file). two_numeric_fields float l"
  shows "load_lines float (Some lines_file) d = (None, stored_rows float r off (drop 3 lines_file))"
proof -
  have h: "header_value float lines_file 0 = Inr r" "header_value float lines_file 1 = Inr off"
    using assms(1-3) by (auto simp: header_value_scalar)
  show ?thesis
    unfolding load_lines_headers_read[OF h]
    by (rule load_rows_stored[OF assms(4)])
qed

text \<open>
  C7.  Whatever the data and the calibration were before the call: when the first two
  lines of the file have a third field that reads as a number, \<open>r\<close> and \<open>off\<close>, and every
  row from the fourth line on has two fields that read as numbers (a third field is not
  asked for), \<^verbatim>\<open>load_lines\<close> returns without an exception; the resolution is \<open>r\<close> and the
  offset \<open>off\<close>; the row with the fields \<open>x\<close> and \<open>i\<close> is stored at the pixel position
  \<open>(x - off) * r\<close> with the intensity \<open>i\<close> and with its third field as comment, the empty
  comment when it has none; a later row at the same position replaces an earlier one, and
  when the positions differ the two dictionaries are the rows in file order.
\<close>

theorem load_converts_with_file_header:
  assumes "2 \<le> length lines_file"
    and "header_scalar float (lines_file ! 0) = Some r"
    and "header_scalar float (lines_file ! 1) = Some off"
    and "\<forall>l\<in>set (drop 3 lines_file). two_numeric_fields float l"
  shows "\<exists>d'. load_lines float (Some lines_file) d = (None, d') \<and>
     d' = stored_rows float r off (drop 3 lines_file) \<and>
     plate_resolution d' = r \<and> plate_offset d' = off \<and>
     map_of (emission_lines d') =
       map_of (rev (map (\<lambda>l. ((the (float (str_split l ! 0)) - off) * r,
                              the (float (str_split l ! 1))))
                      (drop 3 lines_file))) \<and>
     map_of (comments d') =
       map_of (rev (map (\<lambda>l. ((the (float (str_split l ! 0)) - off) * r,
                              if 2 < length (str_split l) then str_split l ! 2 else []))
                      (drop 3 lines_file))) \<and>
     (distinct (map (\<lambda>l. (the (float (str_split l ! 0)) - off) * r) (drop 3 lines_file)) \<longrightarrow>
        emission_lines d' =
          map (\<lambda>l. ((the (float (str_split l ! 0)) - off) * r, the (float (str_split l ! 1))))
            (drop 3 lines_file) \<and>
        comments d' =
          map (\<lambda>l. ((the (float (str_split l ! 0)) - off) * r,
                     if 2 < length (str_split l) then str_split l ! 2 else []))
            (drop 3 lines_file))"
proof -
  let ?rows = "drop 3 lines_file"
  let ?d' = "stored_rows float r off ?rows"
  have l: "load_lines float (Some lines_file) d = (None, ?d')"
    by (rule load_lines_stored[OF assms])
  have cal: "plate_resolution ?d' = r" "plate_offset ?d' = off"
    by (simp_all add: stored_rows_def)
  have el: "map_of (emission_lines ?d') =
       map_of (rev (map (\<lambda>l. ((the (float (str_split l ! 0)) - off) * r,
                              the (float (str_split l ! 1)))) ?rows))"
    by (simp add: stored_rows_def map_of_fold_update row_position_def row_intensity_def)
  have cm: "map_of (comments ?d') =
       map_of (rev (map (\<lambda>l. ((the (float (str_split l ! 0)) - off) * r,
                              if 2 < length (str_split l) then str_split l ! 2 else [])) ?rows))"
    by (simp add: stored_rows_def map_of_fold_update row_position_def row_comment_def)
  have ex: "emission_lines ?d' =
          map (\<lambda>l. ((the (float (str_split l ! 0)) - off) * r, the (float (str_split l ! 1))))
            ?rows \<and>
        comments ?d' =
          map (\<lambda>l. ((the (float (str_split l ! 0)) - off) * r,
                     if 2 < length (str_split l) then str_split l ! 2 else [])) ?rows"
    if "distinct (map (\<lambda>l. (the (float (str_split l ! 0)) - off) * r) ?rows)"
  proof -
    from that have dk: "distinct (map (row_position float r off) ?rows)"
      by (simp add: row_position_def[abs_def])
    have e1: "emission_lines ?d' =
        map (\<lambda>l. (row_position float r off l, row_intensity float l)) ?rows"
      by (simp add: stored_rows_def fold_update_fresh[OF dk])
    have e2: "comments ?d' = map (\<lambda>l. (row_position float r off l, row_comment l)) ?rows"
      by (simp add: stored_rows_def fold_update_fresh[OF dk])
    show ?thesis
      unfolding e1 e2 by (simp add: row_position_def row_intensity_def row_comment_def)
  qed
  show ?thesis
    using l cal el cm ex by blast
qed

subsection \<open>The example files, read\<close>

lemma float_decimal_values:
  "float_decimal ''100.0'' = Some 100"
  "float_decimal ''0.0'' = Some 0"
  "float_decimal ''0.2025'' = Some 0.2025"
  "float_decimal ''3.500'' = Some 3.5"
  "float_decimal ''0.5050'' = Some 0.505"
  "float_decimal ''128.000'' = Some 128"
  "float_decimal ''none'' = None"
  by (simp_all add: float_decimal_def digit_value_def Let_def)

lemma plate_file_headers:
  "header_value float_decimal plate_file 0 = Inr 100"
  "header_value float_decimal plate_file 1 = Inr 0"
  by (simp_all add: header_value_def plate_file_def str_split_def isspace_def
      float_decimal_values)

lemma load_plate_file: "load_lines float_decimal (Some plate_file) d = (None, loaded_plate)"
proof -
  have "load_lines float_decimal (Some plate_file) d =
      load_rows float_decimal (drop 3 plate_file)
       \<lparr>plate_resolution = 100, plate_offset = 0, emission_lines = [], comments = []\<rparr>"
    by (rule load_lines_headers_read[OF plate_file_headers])
  also have "\<dots> = (None, loaded_plate)"
    by (simp add: plate_file_def parse_row_def str_split_def isspace_def float_decimal_values
        dd_setitem_def loaded_plate_def)
  finally show ?thesis .
qed

lemma float_decimal_offset_values:
  "float_decimal ''2.5'' = Some (5 / 2)"
  "float_decimal ''2.7025'' = Some (1081 / 400)"
  "float_decimal ''3.0050'' = Some (601 / 200)"
  by (simp_all add: float_decimal_def digit_value_def Let_def)

text \<open>
  The file with offset 2.5, loaded into data with three lines and the default calibration
  (resolution \<open>2400 / 25.4\<close>, offset 0): the row at 2.7025 has no comment field and is
  stored at \<open>(2.7025 - 2.5) * 100 = 20.25\<close> with the empty comment.
\<close>

theorem load_converts_with_file_header_witness:
  "load_lines float_decimal (Some offset_file) commented_data =
     (None, \<lparr>plate_resolution = 100, plate_offset = 5 / 2,
             emission_lines = [(81 / 4, 7 / 2), (101 / 2, 128)],
             comments = [(81 / 4, []), (101 / 2, ''Fe'')]\<rparr>) \<and>
   length (str_split (offset_file ! 3)) = 2 \<and>
   plate_offset commented_data = 0 \<and>
   plate_resolution commented_data = 2400 / 25.4 \<and>
   emission_lines commented_data = [(50, 128), (10, 7), (50.05, 127)]"
proof -
  have len: "2 \<le> length offset_file"
    by (simp add: offset_file_def)
  have r: "header_scalar float_decimal (offset_file ! 0) = Some 100"
    by (simp add: header_scalar_def offset_file_def str_split_def isspace_def
        float_decimal_values)
  have off: "header_scalar float_decimal (offset_file ! 1) = Some (5 / 2)"
    by (simp add: header_scalar_def offset_file_def str_split_def isspace_def
        float_decimal_offset_values)
  have rows: "\<forall>l\<in>set (drop 3 offset_file). two_numeric_fields float_decimal l"
    by (simp add: offset_file_def two_numeric_fields_def str_split_def isspace_def
        float_decimal_values float_decimal_offset_values del: not_None_eq)
  have two: "length (str_split (offset_file ! 3)) = 2"
    by (simp add: offset_file_def str_split_def isspace_def)
  have old: "plate_offset commented_data = 0" "plate_resolution commented_data = 2400 / 25.4"
    "emission_lines commented_data = [(50, 128), (10, 7), (50.05, 127)]"
    by (simp_all add: commented_data_def Data_init_def)
  from load_converts_with_file_header[OF len r off rows, of commented_data]
  obtain d' where l: "load_lines float_decimal (Some offset_file) commented_data = (None, d')"
    and cal: "plate_resolution d' = 100" "plate_offset d' = 5 / 2"
    and ex: "distinct (map (\<lambda>l. (the (float_decimal (str_split l ! 0)) - 5 / 2) * 100)
               (drop 3 offset_file)) \<longrightarrow>
        emission_lines d' =
          map (\<lambda>l. ((the (float_decimal (str_split l ! 0)) - 5 / 2) * 100,
                     the (float_decimal (str_split l ! 1))))
            (drop 3 offset_file) \<and>
        comments d' =
          map (\<lambda>l. ((the (float_decimal (str_split l ! 0)) - 5 / 2) * 100,
                     if 2 < length (str_split l) then str_split l ! 2 else []))
            (drop 3 offset_file)"
    by blast
  have ps: "map (\<lambda>l. (the (float_decimal (str_split l ! 0)) - 5 / 2) * 100) (drop 3 offset_file)
      = [81 / 4, 101 / 2]"
    by (simp add: offset_file_def str_split_def isspace_def float_decimal_offset_values)
  have el: "map (\<lambda>l. ((the (float_decimal (str_split l ! 0)) - 5 / 2) * 100,
                     the (float_decimal (str_split l ! 1)))) (drop 3 offset_file)
      = [(81 / 4, 7 / 2), (101 / 2, 128)]"
    by (simp add: offset_file_def str_split_def isspace_def float_decimal_values
        float_decimal_offset_values)
  have cm: "map (\<lambda>l. ((the (float_decimal (str_split l ! 0)) - 5 / 2) * 100,
                     if 2 < length (str_split l) then str_split l ! 2 else []))
            (drop 3 offset_file)
      = [(81 / 4, []), (101 / 2, ''Fe'')]"
    by (simp add: offset_file_def str_split_def isspace_def float_decimal_offset_values)
  have "distinct (map (\<lambda>l. (the (float_decimal (str_split l ! 0)) - 5 / 2) * 100)
               (drop 3 offset_file))"
    unfolding ps by simp
  with ex have st: "emission_lines d' = [(81 / 4, 7 / 2), (101 / 2, 128)]"
    "comments d' = [(81 / 4, []), (101 / 2, ''Fe'')]"
    unfolding el cm by simp_all
  have "d' = \<lparr>plate_resolution = 100, plate_offset = 5 / 2,
             emission_lines = [(81 / 4, 7 / 2), (101 / 2, 128)],
             comments = [(81 / 4, []), (101 / 2, ''Fe'')]\<rparr>"
    using cal st by (cases d') simp
  then show ?thesis using l two old by simp
qed

subsection \<open>A load that fails\<close>

text \<open>
  C2 as stated fails: when the file cannot be read the call raises, and the lines and
  comments held before the call are gone.
\<close>

theorem load_failure_wipes_lines:
  "fst (load_lines float_decimal None commented_data) = Some OSError \<and>
   emission_lines commented_data = [(50, 128), (10, 7), (50.05, 127)] \<and>
   emission_lines (snd (load_lines float_decimal None commented_data)) = [] \<and>
   snd (load_lines float_decimal None commented_data) \<noteq> commented_data"
proof -
  have l: "load_lines float_decimal None commented_data =
      (Some OSError, commented_data\<lparr>emission_lines := [], comments := []\<rparr>)"
    by (simp add: load_lines_def)
  have e: "emission_lines commented_data = [(50, 128), (10, 7), (50.05, 127)]"
    by (simp add: commented_data_def)
  have "emission_lines (commented_data\<lparr>emission_lines := [], comments := []\<rparr>)
      \<noteq> emission_lines commented_data"
    by (simp add: e)
  then have "commented_data\<lparr>emission_lines := [], comments := []\<rparr> \<noteq> commented_data"
    by metis
  then show ?thesis using l e by simp
qed

text \<open>
  C2, amended.  \<^verbatim>\<open>load_lines\<close> empties the lines and the comments before it opens the
  file, so its outcome never depends on them, and after a failure they are not restored:
  \<^item> if the file cannot be read, or it has no first line, or the first line has no third
    field that reads as a number, the call raises, the lines and comments are empty and
    the calibration is the old one;
  \<^item> if the first line gives the resolution \<open>r1\<close> but there is no second line or its third
    field does not read as a number, the call raises, the lines and comments are empty,
    the resolution is \<open>r1\<close> and the offset the old one;
  \<^item> if the two header lines give \<open>r2\<close> and \<open>off2\<close>, the rows \<open>ls1\<close> have two numeric
    fields and the row after them has not, the call raises and the state is the
    calibration \<open>r2\<close>, \<open>off2\<close> with exactly the rows \<open>ls1\<close>;
  \<^item> if the two header lines give \<open>r3\<close> and \<open>off3\<close> and every row has two numeric fields,
    the call returns and the state is the calibration \<open>r3\<close>, \<open>off3\<close> with exactly the rows
    of the file, whatever the state was before;
  \<^item> the state with exactly the rows \<open>ls\<close> under \<open>r\<close>, \<open>off\<close> maps the position
    \<open>(x - off) * r\<close> of a row to its intensity and to its comment (empty when the row has
    no third field), the last row at a position counting.
\<close>

theorem load_lines_not_atomic:
  "load_lines float None d = (Some OSError, d\<lparr>emission_lines := [], comments := []\<rparr>) \<and>
   load_lines float name (d\<lparr>emission_lines := el, comments := cm\<rparr>) = load_lines float name d \<and>
   (f0 = [] \<or> header_scalar float (f0 ! 0) = None \<longrightarrow>
      (\<exists>e. load_lines float (Some f0) d =
         (Some e, d\<lparr>emission_lines := [], comments := []\<rparr>))) \<and>
   (f1 \<noteq> [] \<and> header_scalar float (f1 ! 0) = Some r1 \<and>
    (length f1 < 2 \<or> header_scalar float (f1 ! 1) = None) \<longrightarrow>
      (\<exists>e. load_lines float (Some f1) d =
         (Some e, d\<lparr>emission_lines := [], comments := [], plate_resolution := r1\<rparr>))) \<and>
   (2 \<le> length f2 \<and> header_scalar float (f2 ! 0) = Some r2 \<and>
    header_scalar float (f2 ! 1) = Some off2 \<and> drop 3 f2 = ls1 @ l # ls2 \<and>
    (\<forall>l'\<in>set ls1. two_numeric_fields float l') \<and> \<not> two_numeric_fields float l \<longrightarrow>
      (\<exists>e. load_lines float (Some f2) d = (Some e, stored_rows float r2 off2 ls1))) \<and>
   (2 \<le> length f3 \<and> header_scalar float (f3 ! 0) = Some r3 \<and>
    header_scalar float (f3 ! 1) = Some off3 \<and>
    (\<forall>l'\<in>set (drop 3 f3). two_numeric_fields float l') \<longrightarrow>
      load_lines float (Some f3) d = (None, stored_rows float r3 off3 (drop 3 f3))) \<and>
   plate_resolution (stored_rows float r off ls) = r \<and>
   plate_offset (stored_rows float r off ls) = off \<and>
   map_of (emission_lines (stored_rows float r off ls)) =
     map_of (rev (map (\<lambda>l. ((the (float (str_split l ! 0)) - off) * r,
                            the (float (str_split l ! 1)))) ls)) \<and>
   map_of (comments (stored_rows float r off ls)) =
     map_of (rev (map (\<lambda>l. ((the (float (str_split l ! 0)) - off) * r,
                            if 2 < length (str_split l) then str_split l ! 2 else [])) ls))"
proof (intro conjI impI)
  show "load_lines float None d = (Some OSError, d\<lparr>emission_lines := [], comments := []\<rparr>)"
    by (simp add: load_lines_def)
  show "load_lines float name (d\<lparr>emission_lines := el, comments := cm\<rparr>) = load_lines float name d"
    by (simp add: load_lines_def)
  show "\<exists>e. load_lines float (Some f0) d = (Some e, d\<lparr>emission_lines := [], comments := []\<rparr>)"
    if a: "f0 = [] \<or> header_scalar float (f0 ! 0) = None"
  proof -
    from a have "length f0 \<le> 0 \<or> header_scalar float (f0 ! 0) = None" by simp
    from header_value_fails[OF this] obtain e where "header_value float f0 0 = Inl e" ..
    then show ?thesis by (simp add: load_lines_def)
  qed
  show "\<exists>e. load_lines float (Some f1) d =
         (Some e, d\<lparr>emission_lines := [], comments := [], plate_resolution := r1\<rparr>)"
    if a: "f1 \<noteq> [] \<and> header_scalar float (f1 ! 0) = Some r1 \<and>
      (length f1 < 2 \<or> header_scalar float (f1 ! 1) = None)"
  proof -
    from a have h0: "header_value float f1 0 = Inr r1"
      by (simp add: header_value_scalar)
    from a have "length f1 \<le> 1 \<or> header_scalar float (f1 ! 1) = None" by auto
    from header_value_fails[OF this] obtain e where "header_value float f1 1 = Inl e" ..
    then show ?thesis using h0 by (simp add: load_lines_def)
  qed
  show "\<exists>e. load_lines float (Some f2) d = (Some e, stored_rows float r2 off2 ls1)"
    if a: "2 \<le> length f2 \<and> header_scalar float (f2 ! 0) = Some r2 \<and>
      header_scalar float (f2 ! 1) = Some off2 \<and> drop 3 f2 = ls1 @ l # ls2 \<and>
      (\<forall>l'\<in>set ls1. two_numeric_fields float l') \<and> \<not> two_numeric_fields float l"
  proof -
    let ?d0 = "\<lparr>plate_resolution = r2, plate_offset = off2, emission_lines = [], comments = []\<rparr>"
    from a have h: "header_value float f2 0 = Inr r2" "header_value float f2 1 = Inr off2"
      by (auto simp: header_value_scalar)
    from a have rows: "drop 3 f2 = ls1 @ l # ls2"
      and two: "\<forall>l'\<in>set ls1. two_numeric_fields float l'"
      and bad: "\<not> two_numeric_fields float l"
      by simp_all
    have ok: "\<forall>l'\<in>set ls1. \<exists>t. parse_row float ?d0 l' = Inr t"
      using parse_row_two_fields[of float _ ?d0] two by blast
    from parse_row_missing_field[OF bad, of ?d0]
    obtain e where e: "parse_row float ?d0 l = Inl e" ..
    have "load_lines float (Some f2) d = (Some e, snd (load_rows float ls1 ?d0))"
      unfolding load_lines_headers_read[OF h] rows
      by (rule load_rows_failing_row[OF ok e])
    then show ?thesis
      by (simp add: load_rows_stored[OF two])
  qed
  show "load_lines float (Some f3) d = (None, stored_rows float r3 off3 (drop 3 f3))"
    if a: "2 \<le> length f3 \<and> header_scalar float (f3 ! 0) = Some r3 \<and>
      header_scalar float (f3 ! 1) = Some off3 \<and>
      (\<forall>l'\<in>set (drop 3 f3). two_numeric_fields float l')"
    using a by (intro load_lines_stored) simp_all
  show "plate_resolution (stored_rows float r off ls) = r"
    by (simp add: stored_rows_def)
  show "plate_offset (stored_rows float r off ls) = off"
    by (simp add: stored_rows_def)
  show "map_of (emission_lines (stored_rows float r off ls)) =
     map_of (rev (map (\<lambda>l. ((the (float (str_split l ! 0)) - off) * r,
                            the (float (str_split l ! 1)))) ls))"
    by (simp add: stored_rows_def map_of_fold_update row_position_def row_intensity_def)
  show "map_of (comments (stored_rows float r off ls)) =
     map_of (rev (map (\<lambda>l. ((the (float (str_split l ! 0)) - off) * r,
                            if 2 < length (str_split l) then str_split l ! 2 else [])) ls))"
    by (simp add: stored_rows_def map_of_fold_update row_position_def row_comment_def)
qed

text \<open>
  On the example files: an empty file and a file with a bad offset line leave the three
  lines of the data gone, a file whose second row lacks the intensity leaves the first row
  of the file behind, and the complete file replaces the state.
\<close>

theorem load_lines_not_atomic_witness:
  "emission_lines commented_data = [(50, 128), (10, 7), (50.05, 127)] \<and>
   (\<exists>e. load_lines float_decimal (Some []) commented_data =
      (Some e, commented_data\<lparr>emission_lines := [], comments := []\<rparr>)) \<and>
   (\<exists>e. load_lines float_decimal (Some bad_offset_file) commented_data =
      (Some e, commented_data\<lparr>emission_lines := [], comments := [], plate_resolution := 100\<rparr>)) \<and>
   (\<exists>e. load_lines float_decimal (Some truncated_file) commented_data =
      (Some e, \<lparr>plate_resolution = 100, plate_offset = 0, emission_lines = [(81 / 4, 7 / 2)],
                comments = [(81 / 4, [])]\<rparr>)) \<and>
   load_lines float_decimal (Some plate_file) commented_data = (None, loaded_plate)"
proof -
  let ?row1 = "''   0.2025       3.500   '' @ [CHR 0x0A]"
  let ?row2 = "''   0.5050'' @ [CHR 0x0A]"
  have old: "emission_lines commented_data = [(50, 128), (10, 7), (50.05, 127)]"
    by (simp add: commented_data_def)
  have h1: "bad_offset_file \<noteq> [] \<and> header_scalar float_decimal (bad_offset_file ! 0) = Some 100 \<and>
      (length bad_offset_file < 2 \<or> header_scalar float_decimal (bad_offset_file ! 1) = None)"
    by (simp add: header_scalar_def bad_offset_file_def str_split_def isspace_def
        float_decimal_values)
  have h2: "2 \<le> length truncated_file \<and>
      header_scalar float_decimal (truncated_file ! 0) = Some 100 \<and>
      header_scalar float_decimal (truncated_file ! 1) = Some 0 \<and>
      drop 3 truncated_file = [?row1] @ ?row2 # []"
    by (simp add: header_scalar_def truncated_file_def str_split_def isspace_def
        float_decimal_values)
  have ok: "\<forall>l'\<in>set [?row1]. two_numeric_fields float_decimal l'"
    by (simp add: two_numeric_fields_def str_split_def isspace_def float_decimal_values
        del: not_None_eq)
  have bad: "\<not> two_numeric_fields float_decimal ?row2"
    by (simp add: two_numeric_fields_def str_split_def isspace_def)
  have h3: "2 \<le> length plate_file \<and>
      header_scalar float_decimal (plate_file ! 0) = Some 100 \<and>
      header_scalar float_decimal (plate_file ! 1) = Some 0"
    by (simp add: header_scalar_def plate_file_def str_split_def isspace_def
        float_decimal_values)
  have rows3: "\<forall>l'\<in>set (drop 3 plate_file). two_numeric_fields float_decimal l'"
    by (simp add: plate_file_def two_numeric_fields_def str_split_def isspace_def
        float_decimal_values del: not_None_eq)
  have s1: "stored_rows float_decimal 100 0 [?row1] =
      \<lparr>plate_resolution = 100, plate_offset = 0, emission_lines = [(81 / 4, 7 / 2)],
       comments = [(81 / 4, [])]\<rparr>"
    by (simp add: stored_rows_def row_position_def row_intensity_def row_comment_def
        str_split_def isspace_def float_decimal_values)
  have s3: "stored_rows float_decimal 100 0 (drop 3 plate_file) = loaded_plate"
    by (simp add: stored_rows_def row_position_def row_intensity_def row_comment_def
        plate_file_def str_split_def isspace_def float_decimal_values loaded_plate_def)
  note T = load_lines_not_atomic[of float_decimal commented_data "Some plate_file" "[]" "[]"
      "[]" bad_offset_file 100 truncated_file 100 0 "[?row1]" ?row2 "[]" plate_file 100 0]
  have c0: "\<exists>e. load_lines float_decimal (Some []) commented_data =
      (Some e, commented_data\<lparr>emission_lines := [], comments := []\<rparr>)"
    using T by blast
  have c1: "\<exists>e. load_lines float_decimal (Some bad_offset_file) commented_data =
      (Some e, commented_data\<lparr>emission_lines := [], comments := [], plate_resolution := 100\<rparr>)"
    using T h1 by blast
  have c2: "\<exists>e. load_lines float_decimal (Some truncated_file) commented_data =
      (Some e, stored_rows float_decimal 100 0 [?row1])"
    using T h2 ok bad by blast
  have c3: "load_lines float_decimal (Some plate_file) commented_data =
      (None, stored_rows float_decimal 100 0 (drop 3 plate_file))"
    using T h3 rows3 by blast
  show ?thesis
    using old c0 c1 c2[unfolded s1] c3[unfolded s3] by blast
qed

subsection \<open>Scanning a plate\<close>

lemma gray_columns:
  assumes "length rows = h"
  shows "plate_array (Gray w h rows) = map (\<lambda>j. map (\<lambda>row. row ! j) rows) [0..<w]"
proof -
  have "map (\<lambda>i. rows ! i ! j) [0..<h] = map (\<lambda>row. row ! j) rows" for j
    using assms by (intro nth_equalityI) simp_all
  then show ?thesis by (simp only: plate_array.simps)
qed

text \<open>
  C4 as stated fails on an image with several channels: for the image of a black and a
  white pixel with three channels the loop walks the three channel planes, not the two
  columns, and produces three samples, each 256 minus the mean of a whole plane.
\<close>

theorem multi_channel_samples_per_channel:
  "wf_image rgb_image \<and> img_width rgb_image = 2 \<and> img_height rgb_image = 1 \<and>
   intensity_list rgb_image = [Some 128.5, Some 128.5, Some 128.5] \<and>
   length (intensity_list rgb_image) \<noteq> img_width rgb_image"
  apply (simp add: rgb_image_def intensity_list_def np_average_def)
  apply (simp add: upt_conv_Cons)
  done

text \<open>
  C4, amended to single-channel images.  For a grey image of width \<open>w\<close> and height
  \<open>h \<ge> 1\<close> the loop produces exactly \<open>w\<close> samples, sample \<open>i\<close> being 256 minus the mean of the
  pixels of column \<open>i\<close>, and these samples with the abscissae \<open>0, \<dots>, plate_width - 1\<close> are
  what the interpolant is built from.
\<close>

theorem gray_samples_column_means:
  assumes "wf_image (Gray w h rows)" and "1 \<le> h"
  shows "length (intensity_list (Gray w h rows)) = w \<and>
     (\<forall>i<w. intensity_list (Gray w h rows) ! i =
        Some (256 - real (\<Sum>row\<leftarrow>rows. row ! i) / real h)) \<and>
     scan_plate interp1d (Some (Gray w h rows)) c =
       (case interp1d [0..<plate_width c]
               (map (\<lambda>i. Some (256 - real (\<Sum>row\<leftarrow>rows. row ! i) / real h)) [0..<w]) of
          Inl e \<Rightarrow> Inl e
        | Inr f \<Rightarrow> Inr (c\<lparr>intensity := f\<rparr>))"
proof -
  from assms have len: "length rows = h" and ne: "rows \<noteq> []"
    by auto
  have il: "intensity_list (Gray w h rows) =
      map (\<lambda>i. Some (256 - real (\<Sum>row\<leftarrow>rows. row ! i) / real h)) [0..<w]"
    using ne len
    by (simp add: intensity_list_def gray_columns[OF len] np_average_def comp_def
        del: plate_array.simps)
  show ?thesis
    by (simp add: il scan_plate_def)
qed

theorem gray_samples_column_means_witness:
  "wf_image gray_image \<and> (1::nat) \<le> 2 \<and>
   length (intensity_list gray_image) = 2 \<and>
   intensity_list gray_image ! 0 = Some 231 \<and>
   intensity_list gray_image ! 1 = Some 106"
proof -
  have w: "wf_image (Gray 2 2 [[0, 100], [50, 200]])" by simp
  have h: "(1::nat) \<le> 2" by simp
  from gray_samples_column_means[OF w h, of interp1d_steps blank_window]
  have "length (intensity_list gray_image) = 2"
    "intensity_list gray_image ! 0 = Some 231" "intensity_list gray_image ! 1 = Some 106"
    by (simp_all add: gray_image_def)
  then show ?thesis using w h by (simp add: gray_image_def)
qed

subsection \<open>Images without columns and with few columns\<close>

lemma gray_intensity_list:
  assumes "length rows = h" and "1 \<le> h"
  shows "intensity_list (Gray w h rows) =
     map (\<lambda>i. Some (256 - real (\<Sum>row\<leftarrow>rows. row ! i) / real h)) [0..<w]"
proof -
  from assms have ne: "rows \<noteq> []" by auto
  show ?thesis
    using ne assms(1)
    by (simp add: intensity_list_def gray_columns[OF assms(1)] np_average_def comp_def
        del: plate_array.simps)
qed

lemma interp1d_cubic_few_points:
  assumes "length xs < 4"
  shows "interp1d_cubic spline xs ys = Inl ValueError"
  using assms by (simp add: interp1d_cubic_def)




subsection \<open>The interpolant at the columns\<close>

text \<open>
  C9 as stated fails for the widths 1 to 3: for the grey image two pixels wide, scanned
  with its own plate width, the loop produces the two samples 231 and 106, but
  \<^verbatim>\<open>interp1d\<close> raises \<^verbatim>\<open>ValueError\<close> for fewer than four points whatever the spline is, so
  no intensity function is built and the window keeps the function it had, which is not
  231 at column 0.
\<close>

theorem narrow_image_has_no_interpolant:
  "wf_image gray_image \<and> img_width gray_image = 2 \<and>
   plate_width narrow_window = img_width gray_image \<and>
   intensity_list gray_image = [Some 231, Some 106] \<and>
   (\<forall>spline. scan_plate (interp1d_cubic spline) (Some gray_image) narrow_window
      = Inl ValueError) \<and>
   Some (intensity narrow_window 0) \<noteq> intensity_list gray_image ! 0"
proof -
  have il: "intensity_list gray_image = [Some 231, Some 106]"
    apply (simp add: gray_image_def intensity_list_def np_average_def)
    apply (simp add: upt_conv_Cons)
    done
  have s: "scan_plate (interp1d_cubic spline) (Some gray_image) narrow_window = Inl ValueError"
    for spline
    by (simp add: scan_plate_def interp1d_cubic_few_points narrow_window_def)
  show ?thesis
    by (simp add: il s) (simp add: gray_image_def narrow_window_def)
qed

text \<open>
  C9, amended to single-channel images at least four pixels wide, over the reals.  For a
  grey image of width \<open>w \<ge> 4\<close> and height \<open>h \<ge> 1\<close>, scanned with the plate width \<open>w\<close>,
  and a spline that passes through its points, \<^verbatim>\<open>scan_plate\<close> returns, changes nothing
  but the intensity function, and that function at every column \<open>i < w\<close> is sample \<open>i\<close>,
  256 minus the mean of column \<open>i\<close>.
\<close>

theorem cubic_interpolant_passes_through_samples:
  assumes "wf_image (Gray w h rows)" and "4 \<le> w" and "1 \<le> h" and "plate_width c = w"
    and "\<forall>ys i y. length ys = w \<and> i < w \<and> ys ! i = Some y \<longrightarrow> spline [0..<w] ys (real i) = y"
  shows "\<exists>c'. scan_plate (interp1d_cubic spline) (Some (Gray w h rows)) c = Inr c' \<and>
     c' = c\<lparr>intensity := intensity c'\<rparr> \<and>
     (\<forall>i<w. Some (intensity c' (real i)) = intensity_list (Gray w h rows) ! i) \<and>
     (\<forall>i<w. intensity c' (real i) = 256 - real (\<Sum>row\<leftarrow>rows. row ! i) / real h)"
proof -
  let ?ys = "intensity_list (Gray w h rows)"
  let ?c' = "c\<lparr>intensity := spline [0..<w] ?ys\<rparr>"
  from assms(1) have len: "length rows = h" by simp
  have il: "?ys = map (\<lambda>i. Some (256 - real (\<Sum>row\<leftarrow>rows. row ! i) / real h)) [0..<w]"
    by (rule gray_intensity_list[OF len assms(3)])
  have n: "length ?ys = w"
    by (simp add: il)
  have s: "scan_plate (interp1d_cubic spline) (Some (Gray w h rows)) c = Inr ?c'"
    using assms(2,4) n by (simp add: scan_plate_def interp1d_cubic_def)
  have v: "?ys ! i = Some (256 - real (\<Sum>row\<leftarrow>rows. row ! i) / real h)" if "i < w" for i
    using that by (simp add: il)
  have p: "spline [0..<w] ?ys (real i) = 256 - real (\<Sum>row\<leftarrow>rows. row ! i) / real h"
    if "i < w" for i
    using assms(5) n that v[OF that] by blast
  have a: "\<forall>i<w. Some (intensity ?c' (real i)) = ?ys ! i"
    using p v by simp
  have b: "\<forall>i<w. intensity ?c' (real i) = 256 - real (\<Sum>row\<leftarrow>rows. row ! i) / real h"
    using p by simp
  have e: "?c' = c\<lparr>intensity := intensity ?c'\<rparr>"
    by simp
  show ?thesis
    using s e a b by blast
qed

theorem cubic_interpolant_passes_through_samples_witness:
  "wf_image wide_image \<and> img_width wide_image = 4 \<and> plate_width wide_window = 4 \<and>
   intensity_list wide_image = [Some 256, Some 156, Some 56, Some 200] \<and>
   (\<exists>c'. scan_plate (interp1d_cubic step_spline) (Some wide_image) wide_window = Inr c' \<and>
      intensity c' 0 = 256 \<and> intensity c' 1 = 156 \<and> intensity c' 2 = 56 \<and>
      intensity c' 3 = 200)"
proof -
  have wf: "wf_image (Gray 4 1 [[0, 100, 200, 56]])" by simp
  have w: "(4::nat) \<le> 4" and h: "(1::nat) \<le> 1" by simp_all
  have pw: "plate_width wide_window = 4" by (simp add: wide_window_def)
  have sp: "\<forall>ys i y. length ys = 4 \<and> i < 4 \<and> ys ! i = Some y \<longrightarrow>
      step_spline [0..<4] ys (real i) = y"
    by (auto simp: step_spline_def min_def)
  have il: "intensity_list wide_image = [Some 256, Some 156, Some 56, Some 200]"
    apply (simp add: wide_image_def intensity_list_def np_average_def)
    apply (simp add: upt_conv_Cons)
    done
  from cubic_interpolant_passes_through_samples[of 4 1 "[[0, 100, 200, 56]]" wide_window
      step_spline, OF wf w h pw sp]
  obtain c' where s: "scan_plate (interp1d_cubic step_spline) (Some wide_image) wide_window = Inr c'"
    and v: "\<forall>i<4. Some (intensity c' (real i)) = intensity_list wide_image ! i"
    unfolding wide_image_def[symmetric] by blast
  have "intensity c' (real 0) = 256" "intensity c' (real 1) = 156"
    "intensity c' (real 2) = 56" "intensity c' (real 3) = 200"
    using v[rule_format, of 0] v[rule_format, of 1] v[rule_format, of 2] v[rule_format, of 3]
    by (simp_all add: il)
  then have "intensity c' 0 = 256 \<and> intensity c' 1 = 156 \<and> intensity c' 2 = 56 \<and>
      intensity c' 3 = 200"
    by simp
  then show ?thesis
    using s il pw by (auto simp: wide_image_def)
qed

subsection \<open>Saving\<close>

lemma dd_getitem_again:
  "fst (dd_getitem dflt (snd (dd_getitem dflt al k)) k') = fst (dd_getitem dflt al k')"
  by (auto simp: dd_getitem_def map_add_def split: option.splits)

lemma save_rows_written:
  assumes "plate_resolution d \<noteq> 0"
  shows "\<exists>d'. save_rows format_f ps d out =
       (None, d', out @ map (\<lambda>p. format_row format_f (physical d p) (line_intensity d p)
                                   (line_comment d p)) ps) \<and>
     plate_resolution d' = plate_resolution d \<and> plate_offset d' = plate_offset d \<and>
     (\<forall>p. line_intensity d' p = line_intensity d p) \<and>
     (\<forall>p. line_comment d' p = line_comment d p)"
  using assms
proof (induction ps arbitrary: d out)
  case Nil
  show ?case by simp
next
  case (Cons pos ps)
  define d1 where "d1 = d\<lparr>emission_lines := snd (dd_getitem 0 (emission_lines d) pos),
      comments := snd (dd_getitem [] (comments d) pos)\<rparr>"
  have cal: "plate_resolution d1 = plate_resolution d" "plate_offset d1 = plate_offset d"
    by (simp_all add: d1_def)
  have look: "line_intensity d1 p = line_intensity d p" "line_comment d1 p = line_comment d p" for p
    by (simp_all add: d1_def line_intensity_def line_comment_def dd_getitem_again)
  have phys: "physical d1 p = physical d p" for p
    by (simp add: physical_def cal)
  have step: "save_rows format_f (pos # ps) d out =
      save_rows format_f ps d1
        (out @ [format_row format_f (physical d pos) (line_intensity d pos) (line_comment d pos)])"
    using Cons.prems
    by (simp add: d1_def physical_def line_intensity_def line_comment_def split_def)
  from Cons.prems cal have "plate_resolution d1 \<noteq> 0" by simp
  from Cons.IH[OF this, of "out @ [format_row format_f (physical d pos) (line_intensity d pos)
      (line_comment d pos)]"]
  obtain d' where d': "save_rows format_f ps d1
        (out @ [format_row format_f (physical d pos) (line_intensity d pos) (line_comment d pos)])
      = (None, d', (out @ [format_row format_f (physical d pos) (line_intensity d pos)
            (line_comment d pos)]) @
          map (\<lambda>p. format_row format_f (physical d1 p) (line_intensity d1 p) (line_comment d1 p)) ps)"
    "plate_resolution d' = plate_resolution d1" "plate_offset d' = plate_offset d1"
    "\<forall>p. line_intensity d' p = line_intensity d1 p"
    "\<forall>p. line_comment d' p = line_comment d1 p"
    by blast
  show ?case
    using step d' by (intro exI[of _ d']) (simp add: look phys cal)
qed

subsection \<open>The round trip\<close>

lemma dd_setitem_fresh:
  assumes "k \<notin> fst ` set al"
  shows "dd_setitem al k v = al @ [(k, v)]"
  using assms by (induction al) (auto simp: dd_setitem_def)

lemma load_rows_fresh:
  assumes "\<forall>x\<in>set xs. parse_row float d (g x) = Inr (key x, val x, com x)"
    and "distinct (map key xs)"
    and "\<forall>x\<in>set xs. key x \<notin> fst ` set (emission_lines d)"
    and "\<forall>x\<in>set xs. key x \<notin> fst ` set (comments d)"
  shows "load_rows float (map g xs) d =
     (None, d\<lparr>emission_lines := emission_lines d @ map (\<lambda>x. (key x, val x)) xs,
               comments := comments d @ map (\<lambda>x. (key x, com x)) xs\<rparr>)"
  using assms
proof (induction xs arbitrary: d)
  case Nil
  show ?case by simp
next
  case (Cons x xs)
  define d1 where "d1 = d\<lparr>emission_lines := emission_lines d @ [(key x, val x)],
      comments := comments d @ [(key x, com x)]\<rparr>"
  have p: "parse_row float d (g x) = Inr (key x, val x, com x)"
    using Cons.prems(1) by simp
  have st: "dd_setitem (emission_lines d) (key x) (val x) = emission_lines d @ [(key x, val x)]"
      "dd_setitem (comments d) (key x) (com x) = comments d @ [(key x, com x)]"
    using Cons.prems(3,4) by (simp_all add: dd_setitem_fresh)
  have step: "load_rows float (map g (x # xs)) d = load_rows float (map g xs) d1"
    using p st by (simp add: d1_def)
  have same: "parse_row float d1 l = parse_row float d l" for l
    by (rule parse_row_calibration) (simp_all add: d1_def)
  have a1: "\<forall>y\<in>set xs. parse_row float d1 (g y) = Inr (key y, val y, com y)"
    using Cons.prems(1) same by simp
  have a2: "distinct (map key xs)" using Cons.prems(2) by simp
  have a3: "\<forall>y\<in>set xs. key y \<notin> fst ` set (emission_lines d1)"
    using Cons.prems(2,3) by (auto simp: d1_def image_iff)
  have a4: "\<forall>y\<in>set xs. key y \<notin> fst ` set (comments d1)"
    using Cons.prems(2,4) by (auto simp: d1_def image_iff)
  show ?case
    unfolding step Cons.IH[OF a1 a2 a3 a4] by (simp add: d1_def)
qed

lemma parse_formatted_row:
  assumes "reads_as float (format_f 4 x) x'" and "reads_as float (format_f 3 i) i'"
    and "\<forall>ch\<in>set c. \<not> isspace ch"
  shows "parse_row float d (format_row format_f x i c) =
     Inr ((x' - plate_offset d) * plate_resolution d, i', c)"
proof -
  from assms have a: "format_f 4 x \<noteq> []" "\<forall>ch\<in>set (format_f 4 x). \<not> isspace ch"
      "float (format_f 4 x) = Some x'"
    and b: "format_f 3 i \<noteq> []" "\<forall>ch\<in>set (format_f 3 i). \<not> isspace ch"
      "float (format_f 3 i) = Some i'"
    by (simp_all add: reads_as_def)
  have "str_split (format_row format_f x i c) =
      format_f 4 x # format_f 3 i # (if c = [] then [] else [c])"
    unfolding format_row_def by (rule split_row[OF a(1,2) b(1,2) assms(3)])
  then show ?thesis
    using a(3) b(3) by (simp add: parse_row_def)
qed

lemma round_half_even_0 [simp]: "round_half_even 0 = 0"
  by (simp add: round_half_even_def)

lemma py_round_0 [simp]: "py_round 0 n = 0"
  by (simp add: py_round_def)

lemma header_values_written:
  assumes "reads_as float a x" and "reads_as float b y"
  shows "header_value float
       ((''Plate Resolution: '' @ a @ '' px/mm'' @ [CHR 0x0A]) #
        (''Plate Offset: '' @ b @ '' mm'' @ [CHR 0x0A]) # rest) 0 = Inr x"
    and "header_value float
       ((''Plate Resolution: '' @ a @ '' px/mm'' @ [CHR 0x0A]) #
        (''Plate Offset: '' @ b @ '' mm'' @ [CHR 0x0A]) # rest) 1 = Inr y"
proof -
  from assms have a: "a \<noteq> []" "\<forall>ch\<in>set a. \<not> isspace ch" "float a = Some x"
    and b: "b \<noteq> []" "\<forall>ch\<in>set b. \<not> isspace ch" "float b = Some y"
    by (simp_all add: reads_as_def)
  define l0 where "l0 = ''Plate Resolution: '' @ a @ '' px/mm'' @ [CHR 0x0A]"
  define l1 where "l1 = ''Plate Offset: '' @ b @ '' mm'' @ [CHR 0x0A]"
  have s0: "str_split l0 = [''Plate'', ''Resolution:'', a, ''px/mm'']"
    unfolding l0_def by (rule split_resolution_header[OF a(1,2)])
  have s1: "str_split l1 = [''Plate'', ''Offset:'', b, ''mm'']"
    unfolding l1_def by (rule split_offset_header[OF b(1,2)])
  have "header_value float (l0 # l1 # rest) 0 = Inr x"
    by (simp add: header_value_def s0 a(3))
  then show "header_value float
       ((''Plate Resolution: '' @ a @ '' px/mm'' @ [CHR 0x0A]) #
        (''Plate Offset: '' @ b @ '' mm'' @ [CHR 0x0A]) # rest) 0 = Inr x"
    unfolding l0_def l1_def .
  have "header_value float (l0 # l1 # rest) 1 = Inr y"
    by (simp add: header_value_def s1 b(3))
  then show "header_value float
       ((''Plate Resolution: '' @ a @ '' px/mm'' @ [CHR 0x0A]) #
        (''Plate Offset: '' @ b @ '' mm'' @ [CHR 0x0A]) # rest) 1 = Inr y"
    unfolding l0_def l1_def .
qed

lemma map_of_keyed:
  assumes "inj_on key (set xs)" and "x \<in> set xs"
  shows "map_of (map (\<lambda>x. (key x, v x)) xs) (key x) = Some (v x)"
  using assms by (induction xs) (auto simp: inj_on_def)

lemma reloaded_equal_up_to_rounding:
  assumes res: "py_round (plate_resolution s) 3 \<noteq> 0"
    and apart: "inj_on (\<lambda>p. py_round (physical s p) 4) (set (get_positions s))"
  shows "equal_up_to_rounding s (reloaded s)"
proof -
  let ?r = "py_round (plate_resolution s) 3"
  let ?key = "\<lambda>p. (py_round (physical s p) 4 - plate_offset s) * ?r"
  let ?ps = "sort (get_positions s)"
  have inj: "inj_on ?key (set ?ps)"
    using apart res by (auto simp: inj_on_def)
  have pos: "get_positions (reloaded s) = map ?key ?ps"
    by (simp add: reloaded_def get_positions_def dd_keys_def comp_def)
  have phys: "physical (reloaded s) (?key p) = py_round (physical s p) 4" for p
    using res by (simp add: physical_def reloaded_def)
  have int: "line_intensity (reloaded s) (?key p) = py_round (line_intensity s p) 3"
    if "p \<in> set ?ps" for p
    using map_of_keyed[OF inj that, of "\<lambda>p. py_round (line_intensity s p) 3"]
    by (simp add: line_intensity_def reloaded_def dd_getitem_def)
  have com: "line_comment (reloaded s) (?key p) = line_comment s p" if "p \<in> set ?ps" for p
  proof -
    have "map_of (comments (reloaded s)) (?key p) = Some (line_comment s p)"
      using map_of_keyed[OF inj that, of "line_comment s"] by (simp add: reloaded_def)
    then show ?thesis
      unfolding line_comment_def[of "reloaded s"] dd_getitem_def by simp
  qed
  have "(\<lambda>p. (physical (reloaded s) p, line_intensity (reloaded s) p, line_comment (reloaded s) p))
          ` set (get_positions (reloaded s)) =
        (\<lambda>p. (physical (reloaded s) (?key p), line_intensity (reloaded s) (?key p),
               line_comment (reloaded s) (?key p))) ` set ?ps"
    unfolding pos by (simp add: image_image)
  also have "\<dots> = (\<lambda>p. (py_round (physical s p) 4, py_round (line_intensity s p) 3,
                          line_comment s p)) ` set ?ps"
    by (rule image_cong) (simp_all add: phys int com)
  finally show ?thesis
    by (simp add: equal_up_to_rounding_def reloaded_def[of s, THEN arg_cong, of plate_resolution]
        reloaded_def[of s, THEN arg_cong, of plate_offset])
qed

lemma replicate_numeral: "replicate (numeral k) x = x # replicate (pred_numeral k) x"
  by (simp add: numeral_eq_Suc)

lemma py_round_values:
  "py_round 1 3 = 1" "py_round 5 3 = 5" "py_round 7 3 = 7" "py_round 1 4 = 1"
  "py_round (100001 / 100000) 4 = 1"
  "py_round 100 3 = 100" "py_round (81 / 400) 4 = 81 / 400"
  "py_round (101 / 200) 4 = 101 / 200" "py_round (7 / 2) 3 = 7 / 2" "py_round 128 3 = 128"
  by (simp_all add: py_round_def round_half_even_def)

lemma format_fixed_values:
  "format_fixed 4 1 = ''1.0000''" "format_fixed 4 (100001 / 100000) = ''1.0000''"
  "format_fixed 3 5 = ''5.000''" "format_fixed 3 7 = ''7.000''"
  "format_fixed 4 (81 / 400) = ''0.2025''" "format_fixed 4 (101 / 200) = ''0.5050''"
  "format_fixed 3 (7 / 2) = ''3.500''" "format_fixed 3 128 = ''128.000''"
  by (simp_all add: format_fixed_def round_half_even_def)
    (simp_all add: str_nat.simps replicate_numeral)

lemma str_fixed_values:
  "str_fixed 1 = ''1.0''" "str_fixed 0 = ''0.0''" "str_fixed 100 = ''100.0''"
  by (simp_all add: str_fixed_def format_fixed_def round_half_even_def)
    (simp_all add: str_nat.simps replicate_numeral)

lemma float_decimal_more_values:
  "float_decimal ''1.0'' = Some 1" "float_decimal ''1.0000'' = Some 1"
  "float_decimal ''5.000'' = Some 5" "float_decimal ''7.000'' = Some 7"
  by (simp_all add: float_decimal_def digit_value_def Let_def)

text \<open>
  C3, amended.  Let the resolution not round to 0, let no two stored positions have the
  same physical position to 4 decimals, let the comments contain no white space, and let
  the built-ins print each number of the state as one field that \<^verbatim>\<open>float\<close> reads back as
  the number rounded (resolution to 3 decimals, physical positions to 4, intensities to 3,
  the offset exactly).  Then \<^verbatim>\<open>save_lines\<close> succeeds, and loading the file it wrote, into
  any state, succeeds with the state \<open>reloaded s\<close>: the rounded resolution, the offset, and
  in ascending order one line per stored line, whose physical position under the new
  calibration is the old physical position rounded to 4 decimals, with the intensity
  rounded to 3 decimals and the comment; this state equals the saved one up to the
  declared rounding.
\<close>

theorem save_load_round_trip:
  assumes res: "py_round (plate_resolution s) 3 \<noteq> 0"
    and keys: "distinct (get_positions s)"
    and apart: "inj_on (\<lambda>p. py_round (physical s p) 4) (set (get_positions s))"
    and plain: "\<forall>p\<in>set (get_positions s). \<forall>ch\<in>set (line_comment s p). \<not> isspace ch"
    and hres: "reads_as float (str (py_round (plate_resolution s) 3))
                 (py_round (plate_resolution s) 3)"
    and hoff: "reads_as float (str (plate_offset s)) (plate_offset s)"
    and hpos: "\<forall>p\<in>set (get_positions s).
                 reads_as float (format_f 4 (physical s p)) (py_round (physical s p) 4)"
    and hint: "\<forall>p\<in>set (get_positions s).
                 reads_as float (format_f 3 (line_intensity s p)) (py_round (line_intensity s p) 3)"
  shows "\<exists>s1 file. save_lines str format_f s = (None, s1, file) \<and>
     load_lines float (Some file) d = (None, reloaded s) \<and>
     equal_up_to_rounding s (reloaded s)"
proof -
  let ?r = "py_round (plate_resolution s) 3"
  let ?key = "\<lambda>p. (py_round (physical s p) 4 - plate_offset s) * ?r"
  let ?d0 = "\<lparr>plate_resolution = ?r, plate_offset = plate_offset s, emission_lines = [],
      comments = []\<rparr>"
  define ps where "ps = sort (get_positions s)"
  define rowf where
    "rowf = (\<lambda>p. format_row format_f (physical s p) (line_intensity s p) (line_comment s p))"
  define l0 where "l0 = ''Plate Resolution: '' @ str ?r @ '' px/mm'' @ [CHR 0x0A]"
  define l1 where "l1 = ''Plate Offset: '' @ str (plate_offset s) @ '' mm'' @ [CHR 0x0A]"
  define l2 where "l2 = '' Position | Intensity | Comments'' @ [CHR 0x0A]"
  have sps: "set ps = set (get_positions s)" by (simp add: ps_def)
  have r0: "plate_resolution s \<noteq> 0"
    using res by auto
  from save_rows_written[OF r0, of format_f ps "[l0, l1, l2]"]
  obtain s1 where sv: "save_rows format_f ps s [l0, l1, l2] = (None, s1, [l0, l1, l2] @ map rowf ps)"
    unfolding rowf_def by blast
  have "save_lines str format_f s = save_rows format_f ps s [l0, l1, l2]"
    unfolding save_lines_def ps_def l0_def l1_def l2_def ..
  then have saved: "save_lines str format_f s = (None, s1, l0 # l1 # l2 # map rowf ps)"
    using sv by simp
  have h: "header_value float (l0 # l1 # l2 # map rowf ps) 0 = Inr ?r"
      "header_value float (l0 # l1 # l2 # map rowf ps) 1 = Inr (plate_offset s)"
    unfolding l0_def l1_def by (rule header_values_written[OF hres hoff])+
  have rows: "\<forall>p\<in>set ps. parse_row float ?d0 (rowf p) =
      Inr (?key p, py_round (line_intensity s p) 3, line_comment s p)"
  proof
    fix p assume "p \<in> set ps"
    then have p: "p \<in> set (get_positions s)" using sps by simp
    from parse_formatted_row[of float format_f "physical s p" "py_round (physical s p) 4"
        "line_intensity s p" "py_round (line_intensity s p) 3" "line_comment s p" ?d0]
      hpos hint plain p
    show "parse_row float ?d0 (rowf p) =
        Inr (?key p, py_round (line_intensity s p) 3, line_comment s p)"
      unfolding rowf_def by simp
  qed
  have inj: "inj_on ?key (set ps)"
    using apart res by (auto simp: inj_on_def sps)
  have dis: "distinct (map ?key ps)"
    using keys inj by (simp add: distinct_map ps_def)
  have "load_lines float (Some (l0 # l1 # l2 # map rowf ps)) d =
      load_rows float (drop 3 (l0 # l1 # l2 # map rowf ps)) ?d0"
    by (rule load_lines_headers_read[OF h])
  also have "\<dots> = load_rows float (map rowf ps) ?d0"
    by simp
  also have "\<dots> = (None, ?d0\<lparr>emission_lines := emission_lines ?d0 @
        map (\<lambda>p. (?key p, py_round (line_intensity s p) 3)) ps,
      comments := comments ?d0 @ map (\<lambda>p. (?key p, line_comment s p)) ps\<rparr>)"
    by (rule load_rows_fresh[OF rows dis]) simp_all
  also have "\<dots> = (None, reloaded s)"
    by (simp add: reloaded_def ps_def)
  finally have loaded: "load_lines float (Some (l0 # l1 # l2 # map rowf ps)) d = (None, reloaded s)" .
  show ?thesis
    using saved loaded reloaded_equal_up_to_rounding[OF res apart] by blast
qed

subsection \<open>The example plates, saved and reloaded\<close>

lemma two_close_facts:
  "get_positions two_close = [1, 100001 / 100000]"
  "physical two_close 1 = 1" "physical two_close (100001 / 100000) = 100001 / 100000"
  "line_intensity two_close 1 = 5" "line_intensity two_close (100001 / 100000) = 7"
  "line_comment two_close 1 = []" "line_comment two_close (100001 / 100000) = []"
  by (simp_all add: two_close_def get_positions_def dd_keys_def physical_def line_intensity_def
      line_comment_def dd_getitem_def)

lemma merged_line_facts:
  "get_positions merged_line = [1]" "physical merged_line 1 = 1"
  "line_intensity merged_line 1 = 7" "line_comment merged_line 1 = []"
  by (simp_all add: merged_line_def get_positions_def dd_keys_def physical_def line_intensity_def
      line_comment_def dd_getitem_def)

lemma save_two_close:
  "save_lines str_fixed format_fixed two_close =
     (None, two_close\<lparr>comments := [(1, []), (100001 / 100000, [])]\<rparr>, two_close_file)"
  by (simp add: save_lines_def two_close_def two_close_file_def get_positions_def dd_keys_def
      dd_getitem_def format_row_def rjust_def replicate_numeral py_round_values
      format_fixed_values str_fixed_values)

lemma load_two_close_file:
  "load_lines float_decimal (Some two_close_file) d = (None, merged_line)"
proof -
  have h: "header_value float_decimal two_close_file 0 = Inr 1"
      "header_value float_decimal two_close_file 1 = Inr 0"
    by (simp_all add: header_value_def two_close_file_def str_split_def isspace_def
        float_decimal_values float_decimal_more_values)
  show ?thesis
    unfolding load_lines_headers_read[OF h]
    by (simp add: two_close_file_def parse_row_def str_split_def isspace_def
        float_decimal_more_values dd_setitem_def merged_line_def)
qed

text \<open>
  C3 as stated fails.  Two lines 0.00001 pixels apart at resolution 1 are both written with
  the position \<^verbatim>\<open>1.0000\<close>; the file is read back as a single line with the intensity of the
  second, and the line of intensity 5 has no counterpart in the reloaded state.
\<close>

theorem near_positions_merge_on_reload:
  "fst (save_lines str_fixed format_fixed two_close) = None \<and>
   snd (snd (save_lines str_fixed format_fixed two_close)) = two_close_file \<and>
   load_lines float_decimal (Some two_close_file) two_close = (None, merged_line) \<and>
   length (get_positions two_close) = 2 \<and> length (get_positions merged_line) = 1 \<and>
   \<not> equal_up_to_rounding two_close merged_line"
proof -
  have "(1::real, 5::real, []::string) \<in>
      (\<lambda>p. (py_round (physical two_close p) 4, py_round (line_intensity two_close p) 3,
             line_comment two_close p)) ` set (get_positions two_close)"
    by (simp add: two_close_facts py_round_values)
  moreover have "(1::real, 5::real, []::string) \<notin>
      (\<lambda>p. (physical merged_line p, line_intensity merged_line p, line_comment merged_line p)) `
        set (get_positions merged_line)"
    by (simp add: merged_line_facts)
  ultimately have "\<not> equal_up_to_rounding two_close merged_line"
    unfolding equal_up_to_rounding_def by metis
  then show ?thesis
    by (simp add: save_two_close load_two_close_file two_close_facts merged_line_facts)
qed

lemma plate_data_facts:
  "get_positions plate_data = [101 / 2, 81 / 4]"
  "plate_resolution plate_data = 100" "plate_offset plate_data = 0"
  "physical plate_data (101 / 2) = 101 / 200" "physical plate_data (81 / 4) = 81 / 400"
  "line_intensity plate_data (101 / 2) = 128" "line_intensity plate_data (81 / 4) = 7 / 2"
  "line_comment plate_data (101 / 2) = ''Fe''" "line_comment plate_data (81 / 4) = []"
  by (simp_all add: plate_data_def get_positions_def dd_keys_def physical_def line_intensity_def
      line_comment_def dd_getitem_def)

lemma reloaded_plate_data: "reloaded plate_data = loaded_plate"
  by (simp add: reloaded_def plate_data_facts py_round_values loaded_plate_def)

theorem save_load_round_trip_witness:
  "py_round (plate_resolution plate_data) 3 \<noteq> 0 \<and>
   distinct (get_positions plate_data) \<and>
   inj_on (\<lambda>p. py_round (physical plate_data p) 4) (set (get_positions plate_data)) \<and>
   list_all (\<lambda>p. list_all (\<lambda>ch. \<not> isspace ch) (line_comment plate_data p))
     (get_positions plate_data) \<and>
   (\<exists>s1 file. save_lines str_fixed format_fixed plate_data = (None, s1, file) \<and>
      load_lines float_decimal (Some file) Data_init = (None, loaded_plate)) \<and>
   equal_up_to_rounding plate_data loaded_plate"
proof -
  have res: "py_round (plate_resolution plate_data) 3 \<noteq> 0"
    by (simp add: plate_data_facts py_round_values)
  have keys: "distinct (get_positions plate_data)"
    by (simp add: plate_data_facts)
  have apart: "inj_on (\<lambda>p. py_round (physical plate_data p) 4) (set (get_positions plate_data))"
    by (simp add: plate_data_facts py_round_values)
  have plain: "\<forall>p\<in>set (get_positions plate_data). \<forall>ch\<in>set (line_comment plate_data p).
      \<not> isspace ch"
    by (simp add: plate_data_facts isspace_def)
  have hres: "reads_as float_decimal (str_fixed (py_round (plate_resolution plate_data) 3))
      (py_round (plate_resolution plate_data) 3)"
    by (simp add: plate_data_facts py_round_values str_fixed_values reads_as_def isspace_def
        float_decimal_values)
  have hoff: "reads_as float_decimal (str_fixed (plate_offset plate_data)) (plate_offset plate_data)"
    by (simp add: plate_data_facts str_fixed_values reads_as_def isspace_def float_decimal_values)
  have hpos: "\<forall>p\<in>set (get_positions plate_data).
      reads_as float_decimal (format_fixed 4 (physical plate_data p))
        (py_round (physical plate_data p) 4)"
    by (simp add: plate_data_facts py_round_values format_fixed_values reads_as_def isspace_def
        float_decimal_values)
  have hint: "\<forall>p\<in>set (get_positions plate_data).
      reads_as float_decimal (format_fixed 3 (line_intensity plate_data p))
        (py_round (line_intensity plate_data p) 3)"
    by (simp add: plate_data_facts py_round_values format_fixed_values reads_as_def isspace_def
        float_decimal_values)
  have plain': "list_all (\<lambda>p. list_all (\<lambda>ch. \<not> isspace ch) (line_comment plate_data p))
      (get_positions plate_data)"
    using plain by (simp add: list_all_iff)
  from save_load_round_trip[OF res keys apart plain hres hoff hpos hint, of Data_init]
  show ?thesis
    using res keys apart plain' unfolding reloaded_plate_data by blast
qed

text \<open>The file written for the example plate is the example file.\<close>

lemma save_plate_data:
  "save_lines str_fixed format_fixed plate_data =
     (None, plate_data\<lparr>comments := [(101 / 2, ''Fe''), (81 / 4, [])]\<rparr>, plate_file)"
  by (simp add: save_lines_def plate_data_def plate_file_def get_positions_def dd_keys_def
      dd_getitem_def format_row_def rjust_def replicate_numeral py_round_values
      format_fixed_values str_fixed_values)

end
